theory Spec2Isabelle
  imports Main
begin

section \<open>Values, messages and the external libraries\<close>

text \<open>
  The data handler of \<^verbatim>\<open>validateConnection\<close> casts whatever arrives on the channel to
  \<^verbatim>\<open>ConnectionMessage\<close> without checking it. The model therefore keeps the received value
  dynamic: a primitive, or an object whose \<^verbatim>\<open>type\<close> and \<^verbatim>\<open>message\<close> properties are
  primitives (a property that is absent reads as \<^verbatim>\<open>undefined\<close>).
\<close>

datatype jsval = JUndefined | JNull | JBool bool | JNum int | JStr string

datatype data = Prim jsval | Obj jsval jsval

text \<open>JavaScript truthiness, as tested by \<^verbatim>\<open>!payload.message\<close> and \<^verbatim>\<open>!deviceKey\<close>.\<close>

fun truthy :: "jsval \<Rightarrow> bool" where
  "truthy JUndefined = False"
| "truthy JNull = False"
| "truthy (JBool b) = b"
| "truthy (JNum n) = (n \<noteq> 0)"
| "truthy (JStr s) = (s \<noteq> [])"

text \<open>
  \<^verbatim>\<open>payload.type\<close>: reading a property of \<^verbatim>\<open>null\<close> or \<^verbatim>\<open>undefined\<close> throws a TypeError
  (the result \<open>None\<close>); other primitives have no such property.
\<close>

fun get_type :: "data \<Rightarrow> jsval option" where
  "get_type (Prim JUndefined) = None"
| "get_type (Prim JNull) = None"
| "get_type (Prim v) = Some JUndefined"
| "get_type (Obj t m) = Some t"

fun get_message :: "data \<Rightarrow> jsval" where
  "get_message (Obj t m) = m"
| "get_message (Prim v) = JUndefined"

text \<open>The two messages the program itself sends (type \<^verbatim>\<open>ConnectionMessage\<close>).\<close>

datatype message = Challenge string | Verification string

fun wire :: "message \<Rightarrow> data" where
  "wire (Challenge n) = Obj (JStr ''challenge'') (JStr n)"
| "wire (Verification s) = Obj (JStr ''verification'') (JStr s)"

text \<open>
  The calls into tweetnacl, bs58 and web3.js are parameters of the model, one per pipeline
  of library calls in the source; \<open>None\<close> stands for a thrown exception. Nothing is
  assumed about what they compute.
  \<^item> \<open>keypair_pubkey dk\<close> is
    \<^verbatim>\<open>Keypair.fromSecretKey(bs58.decode(dk)).publicKey.toBase58()\<close>;
  \<^item> \<open>sign_b58 dk m\<close> is \<^verbatim>\<open>bs58.encode(nacl.sign.detached(new TextEncoder().encode(m),
    Keypair.fromSecretKey(bs58.decode(dk)).secretKey))\<close>;
  \<^item> \<open>verify_b58 nonce sig key\<close> is \<^verbatim>\<open>nacl.sign.detached.verify(new TextEncoder().encode(nonce),
    bs58.decode(sig), new PublicKey(key).toBytes())\<close>.
\<close>

record library =
  keypair_pubkey :: "string \<Rightarrow> string option"
  sign_b58 :: "string \<Rightarrow> jsval \<Rightarrow> string option"
  verify_b58 :: "string \<Rightarrow> jsval \<Rightarrow> jsval \<Rightarrow> bool option"

section \<open>Peers, connections and the application state\<close>

datatype handler = ProbeError | ProbeOpen | FatalError | Inbound string

record peer =
  peer_id :: string
  destroyed :: bool
  error_handlers :: "handler list"
  open_handlers :: "handler list"
  connection_handlers :: "handler list"

datatype conn = DataConnection (conn_peer: string)

text \<open>
  What a new \<^verbatim>\<open>Peer\<close> answers to a bind: the first event it emits, if any. Later events
  of a peer the loop has given up are not modelled.
\<close>

datatype bind_outcome = Unavailable | OtherError | Opened | Silent

datatype conn_event = EvOpen | EvData data | EvError

text \<open>The history of calls into the transport and the timers, oldest first.\<close>

datatype entry =
    Probe nat string bind_outcome
  | SetTimeout nat
  | ClearTimeout
  | PeerOff string string
  | PeerOn string string handler
  | PeerDestroy string
  | PeerConnect nat string
  | ConnSend conn message
  | ConnClose conn

text \<open>The type \<^verbatim>\<open>P2pAtomAction\<close>.\<close>

datatype action = Init string | Destroy | Connect string | Add_connection conn

text \<open>
  The atoms and the browser state the source reads and writes: \<^verbatim>\<open>myPeerAtom\<close>,
  \<^verbatim>\<open>window.localStorage\<close>, the public key of \<^verbatim>\<open>userWalletAtom\<close> (in base 58), the
  connections handed to \<^verbatim>\<open>connectionAtom\<close> with \<^verbatim>\<open>{ type: 'add' }\<close>, the history, and the
  value held by \<^verbatim>\<open>p2pAtom\<close> itself, which \<^verbatim>\<open>atom(null, ...)\<close> creates as \<^verbatim>\<open>null\<close>.
\<close>

record app_state =
  myPeer :: "peer option"
  localStorage :: "string \<rightharpoonup> string"
  userWallet :: "string option"
  connections :: "conn list"
  log :: "entry list"
  p2pAtom_value :: "action option"

definition conn_send :: "conn \<Rightarrow> message \<Rightarrow> 'a app_state_scheme \<Rightarrow> 'a app_state_scheme" where
  "conn_send c m st = st\<lparr>log := log st @ [ConnSend c m]\<rparr>"

definition conn_close :: "conn \<Rightarrow> 'a app_state_scheme \<Rightarrow> 'a app_state_scheme" where
  "conn_close c st = st\<lparr>log := log st @ [ConnClose c]\<rparr>"

definition add_connection :: "conn \<Rightarrow> 'a app_state_scheme \<Rightarrow> 'a app_state_scheme" where
  "add_connection c st = st\<lparr>connections := connections st @ [c]\<rparr>"

text \<open>
  The derived atom \<^verbatim>\<open>myOnlineStateAtom\<close>; \<open>isOnline\<close> is the value of
  \<^verbatim>\<open>isNetworkOnlineAtom\<close>. Without a stored peer it reads \<^verbatim>\<open>'loading'\<close> while the network is
  up: the state that the specification calls Offline is the one without a stored peer.
\<close>

definition myOnlineStateAtom :: "bool \<Rightarrow> app_state \<Rightarrow> string" where
  "myOnlineStateAtom isOnline st =
     (if \<not> isOnline then ''offline'' else if myPeer st \<noteq> None then ''online'' else ''loading'')"

section \<open>Network identifiers\<close>

text \<open>
  The decimal numeral of a number, as the template literal prints the slot; \<open>digit_char\<close>
  is applied to numbers below ten only.
\<close>

definition digit_char :: "nat \<Rightarrow> char" where
  "digit_char n = ''0123456789'' ! n"

fun show_nat :: "nat \<Rightarrow> string" where
  "show_nat n = (if n < 10 then [digit_char n] else show_nat (n div 10) @ [digit_char (n mod 10)])"

text \<open>The template literal \<^verbatim>\<open>`pygmy_${key}_${slot}`\<close>.\<close>

definition pygmy_id :: "string \<Rightarrow> nat \<Rightarrow> string" where
  "pygmy_id key slot = ''pygmy_'' @ key @ ''_'' @ show_nat slot"

text \<open>\<^verbatim>\<open>s.split('_')\<close> and the read of an array element, \<^verbatim>\<open>undefined\<close> out of range.\<close>

fun split_on :: "char \<Rightarrow> string \<Rightarrow> string list" where
  "split_on c [] = [[]]"
| "split_on c (x # xs) =
     (if x = c then [] # split_on c xs
      else (case split_on c xs of [] \<Rightarrow> [[x]] | y # ys \<Rightarrow> (x # y) # ys))"

definition element :: "string list \<Rightarrow> nat \<Rightarrow> jsval" where
  "element xs i = (if i < length xs then JStr (xs ! i) else JUndefined)"

section \<open>validateConnection\<close>

text \<open>
  The handler of \<^verbatim>\<open>'data'\<close>. The connection's \<^verbatim>\<open>send\<close> and \<^verbatim>\<open>close\<close> and the callback
  \<^verbatim>\<open>onVerify\<close> are passed in, as in the source; an exception anywhere in the \<^verbatim>\<open>try\<close> block
  ends in the \<^verbatim>\<open>catch\<close>, which closes the connection (the console output is not modelled).
\<close>

definition validateConnection_data ::
  "library \<Rightarrow> string \<Rightarrow> string \<Rightarrow> jsval \<Rightarrow>
   (message \<Rightarrow> 'a app_state_scheme \<Rightarrow> 'a app_state_scheme) \<Rightarrow>
   ('a app_state_scheme \<Rightarrow> 'a app_state_scheme) \<Rightarrow>
   (bool \<Rightarrow> 'a app_state_scheme \<Rightarrow> 'a app_state_scheme) \<Rightarrow>
   data \<Rightarrow> 'a app_state_scheme \<Rightarrow> 'a app_state_scheme" where
  "validateConnection_data L nonce myPubkey targetDevicePubkey send close onVerify d st =
     (case get_type d of
        None \<Rightarrow> close st
      | Some t \<Rightarrow>
          if t = JStr ''challenge'' then
            (case localStorage st (''device_key_'' @ myPubkey) of
               None \<Rightarrow> st
             | Some deviceKey \<Rightarrow>
                 if deviceKey = [] then st
                 else (case sign_b58 L deviceKey (get_message d) of
                         None \<Rightarrow> close st
                       | Some signature \<Rightarrow> send (Verification signature) st))
          else if t = JStr ''verification'' then
            (if \<not> truthy (get_message d) then st
             else (case verify_b58 L nonce (get_message d) targetDevicePubkey of
                     None \<Rightarrow> close st
                   | Some result \<Rightarrow> onVerify result st))
          else st)"

text \<open>The handler of \<^verbatim>\<open>'open'\<close>.\<close>

definition validateConnection_open ::
  "string \<Rightarrow> (message \<Rightarrow> 'a app_state_scheme \<Rightarrow> 'a app_state_scheme) \<Rightarrow>
   'a app_state_scheme \<Rightarrow> 'a app_state_scheme" where
  "validateConnection_open nonce send st = send (Challenge nonce) st"

section \<open>The command \<^verbatim>\<open>init\<close>\<close>

datatype error = InvalidDeviceKey

text \<open>
  Reading \<^verbatim>\<open>myDevicePubkeyAtom(pubkey)\<close>: the stored device key is decoded, or a new keypair
  is generated and stored. \<open>gen\<close> is the keypair \<^verbatim>\<open>Keypair.generate()\<close> would return, as
  (secret key, public key), both in base 58. Each read is modelled as an evaluation of the
  atom's body.
\<close>

definition myDevicePubkeyAtom ::
  "library \<Rightarrow> string \<times> string \<Rightarrow> string \<Rightarrow> (string \<rightharpoonup> string) \<Rightarrow>
   error + string \<times> (string \<rightharpoonup> string)" where
  "myDevicePubkeyAtom L gen pubkey store =
     (let storeId = ''device_key_'' @ pubkey in
      case store storeId of
        None \<Rightarrow> Inr (snd gen, store(storeId \<mapsto> fst gen))
      | Some existingDeviceKey \<Rightarrow>
          if existingDeviceKey \<noteq> [] then
            (case keypair_pubkey L existingDeviceKey of
               None \<Rightarrow> Inl InvalidDeviceKey
             | Some pk \<Rightarrow> Inr (pk, store))
          else Inr (snd gen, store(storeId \<mapsto> fst gen)))"

text \<open>The local variables of the slot loop, the number of binds made so far and its history.\<close>

record probe_state =
  p_slot :: nat
  p_peer :: "peer option"
  p_tries :: nat
  p_trace :: "entry list"

definition new_peer :: "string \<Rightarrow> peer" where
  "new_peer ident = \<lparr>peer_id = ident, destroyed = False, error_handlers = [ProbeError],
     open_handlers = [ProbeOpen], connection_handlers = []\<rparr>"

text \<open>
  One pass through the body of \<^verbatim>\<open>while (!peer && slot < 10)\<close>. \<open>env n\<close> is what the
  \<open>n\<close>-th \<^verbatim>\<open>new Peer(id)\<close> of this run answers. A peer that emits neither \<^verbatim>\<open>'error'\<close> nor
  \<^verbatim>\<open>'open'\<close> leaves the promise pending for ever: the result \<open>None\<close>.
\<close>

definition probe_step :: "(nat \<Rightarrow> bind_outcome) \<Rightarrow> string \<Rightarrow> probe_state \<Rightarrow> probe_state option" where
  "probe_step env devicePubkey s =
     (let ident = pygmy_id devicePubkey (p_slot s);
          s1 = s\<lparr>p_tries := Suc (p_tries s),
                 p_trace := p_trace s @ [Probe (p_slot s) ident (env (p_tries s))]\<rparr>
      in case env (p_tries s) of
           Unavailable \<Rightarrow> Some (s1\<lparr>p_slot := Suc (p_slot s)\<rparr>)
         | OtherError \<Rightarrow> Some (s1\<lparr>p_trace := p_trace s1 @ [SetTimeout 5000]\<rparr>)
         | Opened \<Rightarrow> Some (s1\<lparr>p_peer := Some (new_peer ident)\<rparr>)
         | Silent \<Rightarrow> None)"

partial_function (option) init_slot_loop ::
  "(nat \<Rightarrow> bind_outcome) \<Rightarrow> string \<Rightarrow> probe_state \<Rightarrow> probe_state option" where
  "init_slot_loop env devicePubkey s =
     (if p_peer s = None \<and> p_slot s < 10
      then Option.bind (probe_step env devicePubkey s) (init_slot_loop env devicePubkey)
      else Some s)"

declare init_slot_loop.simps [code]

text \<open>
  The same loop, observed after at most \<open>n\<close> passes through its body: the state it has
  reached by then, whether or not it ever returns.
\<close>

fun init_slot_steps ::
  "nat \<Rightarrow> (nat \<Rightarrow> bind_outcome) \<Rightarrow> string \<Rightarrow> probe_state \<Rightarrow> probe_state option" where
  "init_slot_steps 0 env devicePubkey s = Some s"
| "init_slot_steps (Suc n) env devicePubkey s =
     (if p_peer s = None \<and> p_slot s < 10
      then Option.bind (probe_step env devicePubkey s) (init_slot_steps n env devicePubkey)
      else Some s)"

definition probe_start :: probe_state where
  "probe_start = \<lparr>p_slot = 0, p_peer = None, p_tries = 0, p_trace = []\<rparr>"

text \<open>
  The case \<^verbatim>\<open>'init'\<close>. \<open>None\<close>: the command never returns; \<open>Some (Inl e)\<close>: it throws.
\<close>

definition p2pAtom_init ::
  "library \<Rightarrow> string \<times> string \<Rightarrow> (nat \<Rightarrow> bind_outcome) \<Rightarrow> string \<Rightarrow> app_state \<Rightarrow>
   (error + app_state) option" where
  "p2pAtom_init L gen env key st =
     (case myDevicePubkeyAtom L gen key (localStorage st) of
        Inl e \<Rightarrow> Some (Inl e)
      | Inr (devicePubkey, store) \<Rightarrow>
          (case init_slot_loop env devicePubkey probe_start of
             None \<Rightarrow> None
           | Some s \<Rightarrow>
               let st1 = st\<lparr>localStorage := store, log := log st @ p_trace s\<rparr> in
               (case p_peer s of
                  None \<Rightarrow> Some (Inr st1)
                | Some p \<Rightarrow>
                    let i = peer_id p;
                        p1 = p\<lparr>error_handlers := [], open_handlers := []\<rparr>;
                        p2 = p1\<lparr>error_handlers := error_handlers p1 @ [FatalError],
                                connection_handlers := connection_handlers p1 @ [Inbound key]\<rparr>
                    in Some (Inr (st1\<lparr>myPeer := Some p2,
                         log := log st1 @ [PeerOff i ''error'', PeerOff i ''open'',
                           PeerOn i ''error'' FatalError, PeerOn i ''connection'' (Inbound key)]\<rparr>)))))"

section \<open>The command \<^verbatim>\<open>destroy\<close>\<close>

definition p2pAtom_destroy :: "app_state \<Rightarrow> app_state" where
  "p2pAtom_destroy st =
     (case myPeer st of
        None \<Rightarrow> st
      | Some p \<Rightarrow>
          (if \<not> destroyed p then st\<lparr>log := log st @ [PeerDestroy (peer_id p)]\<rparr> else st)
          \<lparr>myPeer := None\<rparr>)"

section \<open>The handlers registered by \<^verbatim>\<open>init\<close>\<close>

text \<open>
  An \<^verbatim>\<open>'error'\<close> event of a peer runs its error handlers in order. The handler registered by
  \<^verbatim>\<open>init\<close> calls \<^verbatim>\<open>set(p2pAtom, { type: 'destroy' })\<close> with the \<^verbatim>\<open>set\<close> that the write
  function of \<^verbatim>\<open>p2pAtom\<close> received. On the atom whose write function it was given to, that
  \<^verbatim>\<open>set\<close> of jotai stores its argument as the value of the atom and does not call the write
  function again (an atom made with an initial value, here \<^verbatim>\<open>null\<close>, accepts it): the case
  \<^verbatim>\<open>'destroy'\<close> does not run, and the stored peer is neither destroyed nor cleared. The
  handlers of the slot loop act on the variables of a loop that has ended and leave the
  application state as it is.
\<close>

fun run_error_handler :: "handler \<Rightarrow> app_state \<Rightarrow> app_state" where
  "run_error_handler FatalError st = st\<lparr>p2pAtom_value := Some Destroy\<rparr>"
| "run_error_handler h st = st"

definition emit_error :: "peer \<Rightarrow> app_state \<Rightarrow> app_state" where
  "emit_error p st = fold run_error_handler (error_handlers p) st"

text \<open>\<^verbatim>\<open>connection.peer.split('_')[1]\<close>\<close>

definition claimed_key :: "conn \<Rightarrow> jsval" where
  "claimed_key c = element (split_on CHR ''_'' (conn_peer c)) 1"

definition init_onVerify :: "conn \<Rightarrow> bool \<Rightarrow> app_state \<Rightarrow> app_state" where
  "init_onVerify c result st = (if result then add_connection c st else conn_close c st)"

text \<open>
  An inbound connection, under the handlers \<^verbatim>\<open>validateConnection\<close> registers on it with the
  nonce \<open>nonce\<close>; no handler of \<^verbatim>\<open>'error'\<close> is registered on this path.
\<close>

definition inbound_event ::
  "library \<Rightarrow> string \<Rightarrow> string \<Rightarrow> conn \<Rightarrow> conn_event \<Rightarrow> app_state \<Rightarrow> app_state" where
  "inbound_event L nonce key c ev st =
     (case ev of
        EvOpen \<Rightarrow> validateConnection_open nonce (conn_send c) st
      | EvData d \<Rightarrow>
          validateConnection_data L nonce key (claimed_key c)
            (conn_send c) (conn_close c) (init_onVerify c) d st
      | EvError \<Rightarrow> st)"

text \<open>
  The handler of \<^verbatim>\<open>'connection'\<close> that \<^verbatim>\<open>init\<close> registers for the account \<open>key\<close>
  (the tag \<open>Inbound key\<close>), run on a new connection \<open>c\<close> and followed by the events
  \<open>evs\<close> of that connection.
\<close>

definition init_on_connection ::
  "library \<Rightarrow> string \<Rightarrow> string \<Rightarrow> conn \<Rightarrow> conn_event list \<Rightarrow> app_state \<Rightarrow> app_state" where
  "init_on_connection L key nonce c evs st = fold (inbound_event L nonce key c) evs st"

section \<open>The command \<^verbatim>\<open>connect\<close>\<close>

text \<open>
  One pass of the promise in the body of \<^verbatim>\<open>while (!conn && slot < 10)\<close>: the application
  state, the promise (\<open>None\<close> while pending, then the value it was first resolved with) and
  whether the timer \<^verbatim>\<open>expireId\<close> is still armed.
\<close>

record attempt_state = app_state +
  resolved :: "conn option option"
  expire_armed :: bool

definition resolve :: "conn option \<Rightarrow> attempt_state \<Rightarrow> attempt_state" where
  "resolve v s = (if resolved s = None then s\<lparr>resolved := Some v\<rparr> else s)"

definition clearTimeout :: "attempt_state \<Rightarrow> attempt_state" where
  "clearTimeout s = s\<lparr>expire_armed := False, log := log s @ [ClearTimeout]\<rparr>"

definition connect_onVerify :: "conn \<Rightarrow> bool \<Rightarrow> attempt_state \<Rightarrow> attempt_state" where
  "connect_onVerify c result s =
     (if result then resolve (Some c) (clearTimeout s) else conn_close c s)"

definition connect_event ::
  "library \<Rightarrow> string \<Rightarrow> string \<Rightarrow> string \<Rightarrow> conn \<Rightarrow> conn_event \<Rightarrow>
   attempt_state \<Rightarrow> attempt_state" where
  "connect_event L nonce myPubkey key c ev s =
     (case ev of
        EvError \<Rightarrow> resolve None (clearTimeout s)
      | EvOpen \<Rightarrow> validateConnection_open nonce (conn_send c) s
      | EvData d \<Rightarrow>
          validateConnection_data L nonce myPubkey (JStr key)
            (conn_send c) (conn_close c) (connect_onVerify c) d s)"

text \<open>The timer's callback, run 5000 ms after the attempt began unless it was cleared.\<close>

definition expire :: "attempt_state \<Rightarrow> attempt_state" where
  "expire s = (if expire_armed s then resolve None (s\<lparr>expire_armed := False\<rparr>) else s)"

text \<open>
  An attempt on one slot. \<open>evs\<close> are the events the new connection emits before the 5000 ms
  have passed, in order; \<open>nonce\<close> is the value \<^verbatim>\<open>getRandom()\<close> returns inside
  \<^verbatim>\<open>validateConnection\<close>. The result is what \<^verbatim>\<open>await\<close> yields, \<open>None\<close> if the promise were
  never resolved.
\<close>

definition connect_attempt ::
  "library \<Rightarrow> string \<Rightarrow> string \<Rightarrow> string \<Rightarrow> nat \<Rightarrow> conn_event list \<Rightarrow> app_state \<Rightarrow>
   (conn option \<times> app_state) option" where
  "connect_attempt L nonce myPubkey key slot evs st =
     (let hostId = pygmy_id key slot;
          connection = DataConnection hostId;
          s0 = \<lparr>myPeer = myPeer st, localStorage = localStorage st, userWallet = userWallet st,
                 connections = connections st,
                 log = log st @ [SetTimeout 5000, PeerConnect slot hostId],
                 p2pAtom_value = p2pAtom_value st,
                 resolved = None, expire_armed = True\<rparr>;
          s1 = expire (fold (connect_event L nonce myPubkey key connection) evs s0)
      in case resolved s1 of
           None \<Rightarrow> None
         | Some r \<Rightarrow> Some (r, \<lparr>myPeer = myPeer s1, localStorage = localStorage s1,
                              userWallet = userWallet s1, connections = connections s1,
                              log = log s1, p2pAtom_value = p2pAtom_value s1\<rparr>))"

text \<open>
  The loop \<^verbatim>\<open>while (!conn && slot < 10) { conn = await ...; slot++ }\<close>; \<open>nonces\<close> and
  \<open>cenv\<close> give the nonce and the events of the attempt on each slot.
\<close>

function connectToSlots ::
  "library \<Rightarrow> (nat \<Rightarrow> string) \<Rightarrow> (nat \<Rightarrow> conn_event list) \<Rightarrow> string \<Rightarrow> string \<Rightarrow>
   nat \<Rightarrow> conn option \<Rightarrow> app_state \<Rightarrow> (conn option \<times> app_state) option" where
  "connectToSlots L nonces cenv myPubkey key slot conn st =
     (if conn = None \<and> slot < 10 then
        (case connect_attempt L (nonces slot) myPubkey key slot (cenv slot) st of
           None \<Rightarrow> None
         | Some (conn', st') \<Rightarrow> connectToSlots L nonces cenv myPubkey key (Suc slot) conn' st')
      else Some (conn, st))"
  by pat_completeness auto
termination
  by (relation "measure (\<lambda>(L, nonces, cenv, myPubkey, key, slot, conn, st). 10 - slot)") auto

declare connectToSlots.simps [simp del]

text \<open>The case \<^verbatim>\<open>'connect'\<close>; \<open>None\<close>: the command never returns.\<close>

definition p2pAtom_connect ::
  "library \<Rightarrow> (nat \<Rightarrow> string) \<Rightarrow> (nat \<Rightarrow> conn_event list) \<Rightarrow> string \<Rightarrow> app_state \<Rightarrow>
   app_state option" where
  "p2pAtom_connect L nonces cenv key st =
     (case myPeer st of
        None \<Rightarrow> Some st
      | Some peer \<Rightarrow>
          (case userWallet st of
             None \<Rightarrow> Some st
           | Some myPubkey \<Rightarrow>
               (case connectToSlots L nonces cenv myPubkey key 0 None st of
                  None \<Rightarrow> None
                | Some (None, st') \<Rightarrow> Some st'
                | Some (Some conn, st') \<Rightarrow> Some (add_connection conn st'))))"

section \<open>The dispatch of \<^verbatim>\<open>p2pAtom\<close>\<close>

text \<open>What the surroundings contribute to one command.\<close>

record surroundings =
  generated :: "string \<times> string"
  binds :: "nat \<Rightarrow> bind_outcome"
  randoms :: "nat \<Rightarrow> string"
  channel_events :: "nat \<Rightarrow> conn_event list"

fun p2pAtom :: "library \<Rightarrow> surroundings \<Rightarrow> action \<Rightarrow> app_state \<Rightarrow> (error + app_state) option" where
  "p2pAtom L E (Init key) st = p2pAtom_init L (generated E) (binds E) key st"
| "p2pAtom L E (Connect key) st =
     map_option Inr (p2pAtom_connect L (randoms E) (channel_events E) key st)"
| "p2pAtom L E Destroy st = Some (Inr (p2pAtom_destroy st))"
| "p2pAtom L E (Add_connection c) st = Some (Inr st)"

section \<open>Reading the history\<close>

text \<open>The slot a history entry binds, if it is a bind.\<close>

fun probed :: "entry \<Rightarrow> nat option" where
  "probed (Probe a ident out) = Some a"
| "probed e = None"

text \<open>The entries an outbound attempt opens with: its timer and its call of \<^verbatim>\<open>peer.connect\<close>.\<close>

fun is_attempt_entry :: "entry \<Rightarrow> bool" where
  "is_attempt_entry (SetTimeout ms) = True"
| "is_attempt_entry (PeerConnect slot hostId) = True"
| "is_attempt_entry e = False"

definition attempt_entries :: "string \<Rightarrow> nat \<Rightarrow> entry list" where
  "attempt_entries key slot = [SetTimeout 5000, PeerConnect slot (pygmy_id key slot)]"

text \<open>
  An event that makes the handshake report \<^verbatim>\<open>verified = true\<close>: a verification message
  whose signature the library accepts for the local nonce and the claimed key.
\<close>

definition verifies :: "library \<Rightarrow> string \<Rightarrow> jsval \<Rightarrow> conn_event \<Rightarrow> bool" where
  "verifies L nonce target ev =
     (case ev of
        EvData d \<Rightarrow> get_type d = Some (JStr ''verification'') \<and> truthy (get_message d) \<and>
                    verify_b58 L nonce (get_message d) target = Some True
      | _ \<Rightarrow> False)"

section \<open>Invariants of the slot loop\<close>

definition ordered :: "entry list \<Rightarrow> bool" where
  "ordered tr \<longleftrightarrow>
     (\<forall>i j a ident out a'. i < j \<and> j < length tr \<and> tr ! i = Probe a ident out \<and>
        probed (tr ! j) = Some a' \<longrightarrow> a \<le> a' \<and> (out = Unavailable \<longrightarrow> a < a'))"

definition window :: "nat \<Rightarrow> (entry \<Rightarrow> entry \<Rightarrow> bool) \<Rightarrow> entry list \<Rightarrow> bool" where
  "window d R tr \<longleftrightarrow> (\<forall>i. i + d < length tr \<longrightarrow> R (tr ! i) (tr ! (i + d)))"

definition after_unavailable :: "entry \<Rightarrow> entry \<Rightarrow> bool" where
  "after_unavailable x y \<longleftrightarrow> (\<forall>a ident. x = Probe a ident Unavailable \<longrightarrow> probed y = Some (Suc a))"

definition after_other :: "entry \<Rightarrow> entry \<Rightarrow> bool" where
  "after_other x y \<longleftrightarrow> (\<forall>a ident. x = Probe a ident OtherError \<longrightarrow> y = SetTimeout 5000)"

definition retry_other :: "entry \<Rightarrow> entry \<Rightarrow> bool" where
  "retry_other x y \<longleftrightarrow> (\<forall>a ident. x = Probe a ident OtherError \<longrightarrow> probed y = Some a)"

definition inv_entries :: "string \<Rightarrow> probe_state \<Rightarrow> bool" where
  "inv_entries dk s \<longleftrightarrow>
     (\<forall>a ident out. Probe a ident out \<in> set (p_trace s) \<longrightarrow>
        ident = pygmy_id dk a \<and> a < 10 \<and> a \<le> p_slot s \<and> out \<noteq> Silent \<and>
        (out = Unavailable \<longrightarrow> a < p_slot s) \<and> (out = Opened \<longrightarrow> p_peer s \<noteq> None)) \<and>
     (\<forall>e \<in> set (p_trace s).
        (case e of Probe a ident out \<Rightarrow> True | SetTimeout ms \<Rightarrow> ms = 5000 | _ \<Rightarrow> False))"

definition inv_last :: "probe_state \<Rightarrow> bool" where
  "inv_last s \<longleftrightarrow>
     (p_trace s = [] \<longrightarrow> p_slot s = 0) \<and>
     (\<forall>a ident. p_trace s \<noteq> [] \<and> last (p_trace s) = Probe a ident Unavailable \<longrightarrow>
        p_slot s = Suc a) \<and>
     (\<forall>a ident. p_trace s \<noteq> [] \<and> last (p_trace s) = Probe a ident OtherError \<longrightarrow> False) \<and>
     (\<forall>ms. p_trace s \<noteq> [] \<and> last (p_trace s) = SetTimeout ms \<longrightarrow>
        p_peer s = None \<and> 2 \<le> length (p_trace s) \<and>
        (\<exists>ident. p_trace s ! (length (p_trace s) - 2) = Probe (p_slot s) ident OtherError))"

definition inv_first :: "probe_state \<Rightarrow> bool" where
  "inv_first s \<longleftrightarrow>
     (p_trace s = [] \<longrightarrow> p_slot s = 0) \<and> (p_trace s \<noteq> [] \<longrightarrow> probed (p_trace s ! 0) = Some 0)"

definition inv_covered :: "string \<Rightarrow> probe_state \<Rightarrow> bool" where
  "inv_covered dk s \<longleftrightarrow> (\<forall>k < p_slot s. Probe k (pygmy_id dk k) Unavailable \<in> set (p_trace s))"

definition probe_inv :: "string \<Rightarrow> probe_state \<Rightarrow> bool" where
  "probe_inv dk s \<longleftrightarrow> inv_entries dk s \<and> inv_last s \<and> ordered (p_trace s) \<and>
     window 1 after_unavailable (p_trace s) \<and> window 1 after_other (p_trace s) \<and>
     window 2 retry_other (p_trace s)"

definition loop_inv :: "string \<Rightarrow> probe_state \<Rightarrow> bool" where
  "loop_inv dk s \<longleftrightarrow> probe_inv dk s \<and> inv_first s \<and> inv_covered dk s"

section \<open>Sample inputs\<close>

text \<open>
  A stand-in for the libraries, to run the model on concrete inputs: a secret key is its own
  public key, and the signature of the text \<open>n\<close> under the key \<open>k\<close> is the text \<open>k:n\<close>.
\<close>

definition toy_library :: library where
  "toy_library = \<lparr>keypair_pubkey = (\<lambda>dk. Some dk),
     sign_b58 = (\<lambda>dk m. case m of JStr n \<Rightarrow> Some (dk @ '':'' @ n) | _ \<Rightarrow> None),
     verify_b58 = (\<lambda>nonce sg key.
        case (sg, key) of (JStr s, JStr k) \<Rightarrow> Some (s = k @ '':'' @ nonce) | _ \<Rightarrow> None)\<rparr>"

definition offline :: app_state where
  "offline = \<lparr>myPeer = None, localStorage = Map.empty, userWallet = None, connections = [],
     log = [], p2pAtom_value = None\<rparr>"

definition listening_peer :: peer where
  "listening_peer = \<lparr>peer_id = ''pygmy_D_0'', destroyed = False, error_handlers = [FatalError],
     open_handlers = [], connection_handlers = [Inbound ''me'']\<rparr>"

definition online :: app_state where
  "online = \<lparr>myPeer = Some listening_peer, localStorage = [''device_key_me'' \<mapsto> ''D''],
     userWallet = Some ''me'', connections = [], log = [], p2pAtom_value = None\<rparr>"

text \<open>The listening device after its local storage was cleared.\<close>

definition cleared :: app_state where
  "cleared = \<lparr>myPeer = Some listening_peer, localStorage = Map.empty,
     userWallet = Some ''me'', connections = [], log = [], p2pAtom_value = None\<rparr>"

definition fixed_nonce :: "nat \<Rightarrow> string" where
  "fixed_nonce k = ''n1''"

text \<open>Outbound attempts nobody answers: five run into the timer, five into an error.\<close>

definition nobody :: "nat \<Rightarrow> conn_event list" where
  "nobody k = (if k < 5 then [] else [EvError])"

text \<open>A device with the key \<open>K\<close> that listens on slot 2 and answers the handshake.\<close>

definition listener_on_2 :: "nat \<Rightarrow> conn_event list" where
  "listener_on_2 k =
     (if k = 2 then [EvOpen, EvData (wire (Challenge ''n2'')), EvData (wire (Verification ''K:n1''))]
      else [])"

definition handshake_events :: "conn_event list" where
  "handshake_events =
     [EvOpen, EvData (wire (Challenge ''n2'')), EvData (wire (Verification ''K:n1''))]"

text \<open>Answers of the transport to the binds of \<^verbatim>\<open>init\<close>.\<close>

definition persistent_error :: "nat \<Rightarrow> bind_outcome" where
  "persistent_error n = OtherError"

definition flaky :: "nat \<Rightarrow> bind_outcome" where
  "flaky n = (if n < 2 then OtherError else Opened)"

definition two_taken :: "nat \<Rightarrow> bind_outcome" where
  "two_taken n = (if n < 2 then Unavailable else Opened)"

definition all_taken :: "nat \<Rightarrow> bind_outcome" where
  "all_taken n = Unavailable"

definition two_taken_result :: probe_state where
  "two_taken_result = \<lparr>p_slot = 2, p_peer = Some (new_peer ''pygmy_P_2''), p_tries = 3,
     p_trace = [Probe 0 ''pygmy_P_0'' Unavailable, Probe 1 ''pygmy_P_1'' Unavailable,
                Probe 2 ''pygmy_P_2'' Opened]\<rparr>"

definition still_failing :: probe_state where
  "still_failing = \<lparr>p_slot = 0, p_peer = None, p_tries = 2,
     p_trace = [Probe 0 ''pygmy_P_0'' OtherError, SetTimeout 5000,
                Probe 0 ''pygmy_P_0'' OtherError, SetTimeout 5000]\<rparr>"

definition all_taken_result :: probe_state where
  "all_taken_result = \<lparr>p_slot = 10, p_peer = None, p_tries = 10,
     p_trace = [Probe 0 ''pygmy_P_0'' Unavailable, Probe 1 ''pygmy_P_1'' Unavailable,
                Probe 2 ''pygmy_P_2'' Unavailable, Probe 3 ''pygmy_P_3'' Unavailable,
                Probe 4 ''pygmy_P_4'' Unavailable, Probe 5 ''pygmy_P_5'' Unavailable,
                Probe 6 ''pygmy_P_6'' Unavailable, Probe 7 ''pygmy_P_7'' Unavailable,
                Probe 8 ''pygmy_P_8'' Unavailable, Probe 9 ''pygmy_P_9'' Unavailable]\<rparr>"

lemmas loop_eval = init_slot_loop.simps probe_start_def probe_step_def pygmy_id_def
  digit_char_def Let_def eval_nat_numeral

lemmas handler_eval = validateConnection_data_def validateConnection_open_def conn_send_def
  conn_close_def add_connection_def toy_library_def pygmy_id_def digit_char_def Let_def

section \<open>The slot loop of \<^verbatim>\<open>init\<close>\<close>

subsection \<open>A rule for the loop\<close>

lemma loop_rule_aux:
  assumes step: "\<And>a b. I a \<Longrightarrow> p_peer a = None \<Longrightarrow> p_slot a < 10 \<Longrightarrow>
                   probe_step env dk a = Some b \<Longrightarrow> I b"
    and major: "init_slot_loop env' dk' s = Some s'"
  shows "env' = env \<Longrightarrow> dk' = dk \<Longrightarrow> I s \<Longrightarrow>
         I s' \<and> \<not> (p_peer s' = None \<and> p_slot s' < 10)"
proof (induct rule: init_slot_loop.raw_induct [OF _ major])
  case (1 loop env' dk' a r)
  note IH = 1(1) and hyps = 1(2) and prems = 1(3-)
  show ?case
  proof (cases "p_peer a = None \<and> p_slot a < 10")
    case True
    with hyps obtain b where b: "probe_step env' dk' a = Some b" "loop env' dk' b = Some r"
      by (auto simp: bind_eq_Some_conv)
    have "I b" using step [of a b] True b(1) prems by simp
    then show ?thesis using IH [OF b(2)] prems by simp
  next
    case False
    then show ?thesis using hyps prems by auto
  qed
qed

lemma loop_rule:
  assumes "init_slot_loop env dk s = Some s'" and "I s"
    and "\<And>a b. I a \<Longrightarrow> p_peer a = None \<Longrightarrow> p_slot a < 10 \<Longrightarrow>
           probe_step env dk a = Some b \<Longrightarrow> I b"
  shows "I s' \<and> \<not> (p_peer s' = None \<and> p_slot s' < 10)"
  using loop_rule_aux [of I env dk env dk s s'] assms by blast

subsection \<open>Histories that grow at the end\<close>

lemma ordered_snoc:
  assumes "ordered tr"
    and "\<And>k i a ident out. probed e = Some k \<Longrightarrow> i < length tr \<Longrightarrow>
           tr ! i = Probe a ident out \<Longrightarrow> a \<le> k \<and> (out = Unavailable \<longrightarrow> a < k)"
  shows "ordered (tr @ [e])"
  unfolding ordered_def
proof (intro allI impI, elim conjE)
  fix i j a ident out a'
  assume ij: "i < j" and j: "j < length (tr @ [e])"
    and ti: "(tr @ [e]) ! i = Probe a ident out"
    and tj: "probed ((tr @ [e]) ! j) = Some a'"
  show "a \<le> a' \<and> (out = Unavailable \<longrightarrow> a < a')"
  proof (cases "j < length tr")
    case True
    with ij have i: "i < length tr" by simp
    have "tr ! i = Probe a ident out" using ti i by (simp add: nth_append)
    moreover have "probed (tr ! j) = Some a'" using tj True by (simp add: nth_append)
    ultimately show ?thesis using assms(1) True ij unfolding ordered_def by blast
  next
    case False
    then have jl: "j = length tr" using j by simp
    with ij have i: "i < length tr" by simp
    have "tr ! i = Probe a ident out" using ti i by (simp add: nth_append)
    moreover have "probed e = Some a'" using tj jl by simp
    ultimately show ?thesis using assms(2) i by blast
  qed
qed

lemma window_snoc:
  assumes "window d R tr" and "0 < d" and "d \<le> length tr \<Longrightarrow> R (tr ! (length tr - d)) e"
  shows "window d R (tr @ [e])"
  unfolding window_def
proof (intro allI impI)
  fix i
  assume h: "i + d < length (tr @ [e])"
  show "R ((tr @ [e]) ! i) ((tr @ [e]) ! (i + d))"
  proof (cases "i + d < length tr")
    case True
    then have "i < length tr" by simp
    then show ?thesis using assms(1) True by (simp add: window_def nth_append)
  next
    case False
    then have e: "i + d = length tr" using h by simp
    then have "i < length tr" "i = length tr - d" "d \<le> length tr" using assms(2) by simp_all
    then show ?thesis using assms(3) e by (simp add: nth_append)
  qed
qed

subsection \<open>The loop body keeps the invariants\<close>

lemma inv_entries_step:
  "inv_entries dk a \<Longrightarrow> p_peer a = None \<Longrightarrow> p_slot a < 10 \<Longrightarrow> probe_step env dk a = Some b \<Longrightarrow>
   inv_entries dk b"
  unfolding inv_entries_def probe_step_def Let_def
  by (cases "env (p_tries a)") (fastforce simp: less_Suc_eq_le)+

lemma inv_last_step:
  "inv_last a \<Longrightarrow> p_peer a = None \<Longrightarrow> p_slot a < 10 \<Longrightarrow> probe_step env dk a = Some b \<Longrightarrow>
   inv_last b"
  unfolding inv_last_def probe_step_def Let_def
  by (cases "env (p_tries a)") (auto simp: nth_append)

lemma inv_first_step:
  "inv_first a \<Longrightarrow> probe_step env dk a = Some b \<Longrightarrow> inv_first b"
  unfolding inv_first_def probe_step_def Let_def
  by (cases "env (p_tries a)") (auto simp: nth_append)

lemma inv_covered_step:
  "inv_covered dk a \<Longrightarrow> probe_step env dk a = Some b \<Longrightarrow> inv_covered dk b"
  unfolding inv_covered_def probe_step_def Let_def
  by (cases "env (p_tries a)") (auto simp: less_Suc_eq)

lemma two_back:
  assumes "window 1 after_other tr" "inv_last s" "p_trace s = tr" "2 \<le> length tr"
    "tr ! (length tr - 2) = Probe a ident OtherError"
  shows "p_slot s = a"
proof -
  have "length tr - 2 + 1 < length tr" using assms(4) by simp
  then have "tr ! (length tr - 2 + 1) = SetTimeout 5000"
    using assms(1,5) unfolding window_def after_other_def by metis
  moreover have "length tr - 2 + 1 = length tr - 1" using assms(4) by simp
  ultimately have "tr ! (length tr - 1) = SetTimeout 5000" by simp
  moreover have ne: "tr \<noteq> []" using assms(4) by auto
  ultimately have "last tr = SetTimeout 5000" by (simp add: last_conv_nth)
  then show ?thesis using ne assms(2,3,5) unfolding inv_last_def by auto
qed

lemma probe_inv_step:
  assumes I: "probe_inv dk a" and c: "p_peer a = None" "p_slot a < 10"
    and st: "probe_step env dk a = Some b"
  shows "probe_inv dk b"
proof -
  let ?tr = "p_trace a"
  let ?e = "Probe (p_slot a) (pygmy_id dk (p_slot a)) (env (p_tries a))"
  from I have ie: "inv_entries dk a" and il: "inv_last a" and ord: "ordered ?tr"
    and w1: "window 1 after_unavailable ?tr" and w2: "window 1 after_other ?tr"
    and w3: "window 2 retry_other ?tr"
    by (simp_all add: probe_inv_def)
  have mem: "\<And>i x ident out. i < length ?tr \<Longrightarrow> ?tr ! i = Probe x ident out \<Longrightarrow>
               x \<le> p_slot a \<and> (out = Unavailable \<longrightarrow> x < p_slot a)"
    using ie unfolding inv_entries_def by (metis nth_mem)
  have o1: "ordered (?tr @ [?e])"
    by (rule ordered_snoc [OF ord]) (use mem in auto)
  have lastnth: "1 \<le> length ?tr \<Longrightarrow> ?tr ! (length ?tr - 1) = last ?tr"
    by (cases "?tr = []") (simp_all add: last_conv_nth)
  have a1: "window 1 after_unavailable (?tr @ [?e])"
    by (rule window_snoc [OF w1]) (use il lastnth in \<open>auto simp: inv_last_def after_unavailable_def\<close>)
  have a2: "window 1 after_other (?tr @ [?e])"
    by (rule window_snoc [OF w2]) (use il lastnth in \<open>auto simp: inv_last_def after_other_def\<close>)
  have a3: "window 2 retry_other (?tr @ [?e])"
    by (rule window_snoc [OF w3]) (use two_back [OF w2 il refl] in \<open>auto simp: retry_other_def\<close>)
  have b1: "ordered (?tr @ [?e] @ [SetTimeout 5000])"
    using ordered_snoc [OF o1, of "SetTimeout 5000"] by simp
  have b2: "window 1 after_unavailable (?tr @ [?e] @ [SetTimeout 5000])"
    if "env (p_tries a) = OtherError"
    using window_snoc [OF a1, of "SetTimeout 5000"] that by (simp add: after_unavailable_def)
  have b3: "window 1 after_other (?tr @ [?e] @ [SetTimeout 5000])"
    using window_snoc [OF a2, of "SetTimeout 5000"] by (simp add: after_other_def)
  have "window 2 retry_other ((?tr @ [?e]) @ [SetTimeout 5000])"
  proof (rule window_snoc [OF a3])
    show "0 < (2::nat)" by simp
    assume "2 \<le> length (?tr @ [?e])"
    then have ne: "?tr \<noteq> []" by auto
    then have "(?tr @ [?e]) ! (length (?tr @ [?e]) - 2) = last ?tr"
      by (simp add: nth_append last_conv_nth)
    moreover have "\<forall>x ident. last ?tr \<noteq> Probe x ident OtherError"
      using il ne by (auto simp: inv_last_def)
    ultimately show "retry_other ((?tr @ [?e]) ! (length (?tr @ [?e]) - 2)) (SetTimeout 5000)"
      by (simp add: retry_other_def)
  qed
  then have b4: "window 2 retry_other (?tr @ [?e] @ [SetTimeout 5000])" by simp
  have ie': "inv_entries dk b" using inv_entries_step [OF ie c st] .
  have il': "inv_last b" using inv_last_step [OF il c st] .
  show ?thesis
    using st o1 a1 a2 a3 b1 b2 b3 b4 ie' il'
    unfolding probe_inv_def probe_step_def Let_def
    by (cases "env (p_tries a)") auto
qed

lemma loop_inv_start: "loop_inv dk probe_start"
  by (simp add: loop_inv_def probe_inv_def inv_entries_def inv_last_def ordered_def window_def
      inv_first_def inv_covered_def probe_start_def)

lemma loop_inv_result:
  assumes "init_slot_loop env dk probe_start = Some s"
  shows "loop_inv dk s \<and> \<not> (p_peer s = None \<and> p_slot s < 10)"
proof (rule loop_rule [where I = "loop_inv dk", OF assms loop_inv_start])
  fix a b
  assume "loop_inv dk a" "p_peer a = None" "p_slot a < 10" "probe_step env dk a = Some b"
  then show "loop_inv dk b"
    unfolding loop_inv_def
    using probe_inv_step [of dk a env b] inv_first_step [of a env dk b]
      inv_covered_step [of dk a env b]
    by blast
qed

lemma steps_inv:
  "init_slot_steps n env dk s = Some s' \<Longrightarrow> loop_inv dk s \<Longrightarrow> loop_inv dk s'"
proof (induction n arbitrary: s)
  case 0
  then show ?case by simp
next
  case (Suc n)
  show ?case
  proof (cases "p_peer s = None \<and> p_slot s < 10")
    case True
    with Suc.prems(1) obtain b where b: "probe_step env dk s = Some b"
      "init_slot_steps n env dk b = Some s'"
      by (auto simp: bind_eq_Some_conv)
    have "loop_inv dk b"
      using Suc.prems(2) True b(1) unfolding loop_inv_def
      using probe_inv_step [of dk s env b] inv_first_step [of s env dk b]
        inv_covered_step [of dk s env b]
      by blast
    then show ?thesis using Suc.IH [OF b(2)] by simp
  next
    case False
    then show ?thesis using Suc.prems by (auto split: if_splits)
  qed
qed

text \<open>A run that returns is a run of finitely many passes.\<close>

lemma loop_is_steps:
  assumes major: "init_slot_loop env dk s = Some s'"
  shows "\<exists>n. init_slot_steps n env dk s = Some s'"
proof (induct rule: init_slot_loop.raw_induct [OF _ major])
  case (1 loop env' dk' a r)
  note IH = 1(1) and hyps = 1(2)
  show ?case
  proof (cases "p_peer a = None \<and> p_slot a < 10")
    case True
    with hyps obtain b where b: "probe_step env' dk' a = Some b" "loop env' dk' b = Some r"
      by (auto simp: bind_eq_Some_conv)
    from IH [OF b(2)] obtain n where "init_slot_steps n env' dk' b = Some r" by blast
    then have "init_slot_steps (Suc n) env' dk' a = Some r" using True b(1) by simp
    then show ?thesis by blast
  next
    case False
    then have "init_slot_steps 0 env' dk' a = Some r" using hyps by (auto split: if_splits)
    then show ?thesis by blast
  qed
qed

text \<open>While the binds keep failing with another error, the loop keeps binding slot 0.\<close>

lemma retries_unbounded_aux:
  assumes "p_slot s = 0" "p_peer s = None" "\<forall>n<N. env (p_tries s + n) = OtherError"
  shows "init_slot_steps N env dk s =
    Some (s\<lparr>p_tries := p_tries s + N,
             p_trace := p_trace s @
               concat (replicate N [Probe 0 (pygmy_id dk 0) OtherError, SetTimeout 5000])\<rparr>)"
  using assms
proof (induction N arbitrary: s)
  case 0
  then show ?case by simp
next
  case (Suc N)
  let ?b = "s\<lparr>p_tries := Suc (p_tries s),
               p_trace := p_trace s @ [Probe 0 (pygmy_id dk 0) OtherError, SetTimeout 5000]\<rparr>"
  have e: "env (p_tries s) = OtherError" using Suc.prems(3) [rule_format, of 0] by simp
  have st: "probe_step env dk s = Some ?b"
    using e Suc.prems(1) by (simp add: probe_step_def Let_def)
  have "\<forall>n<N. env (p_tries ?b + n) = OtherError"
    using Suc.prems(3) by (auto simp: less_Suc_eq_0_disj)
  then have "init_slot_steps N env dk ?b =
    Some (?b\<lparr>p_tries := p_tries ?b + N,
             p_trace := p_trace ?b @
               concat (replicate N [Probe 0 (pygmy_id dk 0) OtherError, SetTimeout 5000])\<rparr>)"
    using Suc.IH [of ?b] Suc.prems(1,2) by simp
  then show ?case using st Suc.prems(1,2) by simp
qed

lemma retries_unbounded:
  assumes "\<forall>n<N. env n = OtherError"
  shows "init_slot_steps N env dk probe_start =
    Some \<lparr>p_slot = 0, p_peer = None, p_tries = N,
       p_trace = concat (replicate N [Probe 0 (pygmy_id dk 0) OtherError, SetTimeout 5000])\<rparr>"
  using retries_unbounded_aux [of probe_start N env dk] assms
  by (simp add: probe_start_def)

subsection \<open>When the loop returns\<close>

lemma probe_step_fields:
  assumes "probe_step env dk a = Some b"
  shows "p_tries b = Suc (p_tries a)"
    and "env (p_tries a) = Unavailable \<Longrightarrow> p_slot b = Suc (p_slot a) \<and> p_peer b = p_peer a"
    and "env (p_tries a) = OtherError \<Longrightarrow> p_slot b = p_slot a \<and> p_peer b = p_peer a"
    and "env (p_tries a) = Opened \<Longrightarrow> p_peer b \<noteq> None"
  using assms unfolding probe_step_def Let_def
  by (cases "env (p_tries a)"; auto)+

lemma probe_step_Some:
  "env (p_tries a) \<noteq> Silent \<Longrightarrow> \<exists>b. probe_step env dk a = Some b"
  unfolding probe_step_def Let_def by (cases "env (p_tries a)") auto

lemma loop_returns:
  assumes "\<forall>n. env n \<noteq> Silent" and "\<forall>n\<ge>N. env n \<noteq> OtherError"
  shows "\<exists>r. init_slot_loop env dk s = Some r"
proof (induction "(N - p_tries s) + (10 - p_slot s)" arbitrary: s rule: less_induct)
  case less
  show ?case
  proof (cases "p_peer s = None \<and> p_slot s < 10")
    case False
    then show ?thesis by (subst init_slot_loop.simps) auto
  next
    case True
    from assms(1) obtain b where b: "probe_step env dk s = Some b"
      using probe_step_Some [of env s dk] by blast
    have unf: "init_slot_loop env dk s = init_slot_loop env dk b"
      using True b by (subst init_slot_loop.simps) simp
    show ?thesis
    proof (cases "env (p_tries s)")
      case Unavailable
      then have "(N - p_tries b) + (10 - p_slot b) < (N - p_tries s) + (10 - p_slot s)"
        using probe_step_fields(1,2) [OF b] True by auto
      then show ?thesis using less.hyps [of b] unf by simp
    next
      case OtherError
      then have "p_tries s < N" using assms(2) by (meson not_le)
      then have "(N - p_tries b) + (10 - p_slot b) < (N - p_tries s) + (10 - p_slot s)"
        using probe_step_fields(1,3) [OF b] OtherError by auto
      then show ?thesis using less.hyps [of b] unf by simp
    next
      case Opened
      then have "p_peer b \<noteq> None" using probe_step_fields(4) [OF b] by simp
      then have "init_slot_loop env dk b = Some b" by (subst init_slot_loop.simps) auto
      then show ?thesis using unf by simp
    next
      case Silent
      then show ?thesis using assms(1) by blast
    qed
  qed
qed

lemma probed_Some: "probed e = Some a \<Longrightarrow> \<exists>ident out. e = Probe a ident out"
  by (cases e) auto

lemma trace_ident:
  assumes "loop_inv dk s" "i < length (p_trace s)" "probed (p_trace s ! i) = Some a"
  shows "\<exists>out. p_trace s ! i = Probe a (pygmy_id dk a) out"
proof -
  obtain ident out where e: "p_trace s ! i = Probe a ident out"
    using probed_Some [OF assms(3)] by blast
  then have "Probe a ident out \<in> set (p_trace s)" using assms(2) by (metis nth_mem)
  then have "ident = pygmy_id dk a"
    using assms(1) unfolding loop_inv_def probe_inv_def inv_entries_def by blast
  then show ?thesis using e by simp
qed

lemma retry_in_result:
  assumes "init_slot_loop env dk probe_start = Some s"
    and "i < length (p_trace s)" and "p_trace s ! i = Probe a ident OtherError"
  shows "Suc (Suc i) < length (p_trace s) \<and> p_trace s ! Suc i = SetTimeout 5000 \<and>
         (\<exists>out. p_trace s ! Suc (Suc i) = Probe a ident out)"
proof -
  let ?tr = "p_trace s"
  have I: "loop_inv dk s" and ex: "\<not> (p_peer s = None \<and> p_slot s < 10)"
    using loop_inv_result [OF assms(1)] by simp_all
  then have il: "inv_last s" and ie: "inv_entries dk s" and w2: "window 1 after_other ?tr"
    and w3: "window 2 retry_other ?tr"
    by (simp_all add: loop_inv_def probe_inv_def)
  have mem: "Probe a ident OtherError \<in> set ?tr" using assms(2,3) by (metis nth_mem)
  then have a: "a < 10" "ident = pygmy_id dk a" using ie unfolding inv_entries_def by blast+
  have ne: "?tr \<noteq> []" using assms(2) by auto
  have 1: "Suc i < length ?tr"
  proof (rule ccontr)
    assume "\<not> Suc i < length ?tr"
    then have "i = length ?tr - 1" using assms(2) by simp
    then have "last ?tr = Probe a ident OtherError" using assms(3) ne by (simp add: last_conv_nth)
    then show False using il ne unfolding inv_last_def by blast
  qed
  have 2: "?tr ! Suc i = SetTimeout 5000"
    using w2 1 assms(3) unfolding window_def after_other_def by (metis Suc_eq_plus1)
  have 3: "Suc (Suc i) < length ?tr"
  proof (rule ccontr)
    assume "\<not> Suc (Suc i) < length ?tr"
    then have l: "length ?tr = Suc (Suc i)" using 1 by simp
    then have "last ?tr = SetTimeout 5000" using 2 ne by (simp add: last_conv_nth)
    moreover have "p_slot s = a"
      using two_back [OF w2 il refl, of a ident] l assms(3) by simp
    ultimately show False using il ne ex a(1) unfolding inv_last_def by blast
  qed
  have "probed (?tr ! (i + 2)) = Some a"
    using w3 3 assms(3) unfolding window_def retry_other_def by (metis add_2_eq_Suc')
  then have "\<exists>out. ?tr ! Suc (Suc i) = Probe a ident out"
    using trace_ident [OF I 3] a(2) by simp
  then show ?thesis using 2 3 by blast
qed

subsection \<open>Order of the binds\<close>

text \<open>
  Claim C5. At every moment of the slot loop of \<^verbatim>\<open>init\<close>, after any number of passes through
  its body and when it returns, its history shows that the first bind is on slot 0; that the
  slots of the binds never decrease; that a bind answered with \<^verbatim>\<open>unavailable-id\<close> on slot
  \<open>a\<close> is followed at once, with no timer in between, by the bind on slot \<open>a + 1\<close> (unless
  it is the last entry so far); and that every later bind is on a slot greater than \<open>a\<close>, so
  a slot declared in use is never bound again. A slot is bound again only after an error of
  another kind, which is the retry of the next claim.
\<close>

theorem probing_order:
  assumes "init_slot_loop env dk probe_start = Some s \<or>
           init_slot_steps n env dk probe_start = Some s"
  shows "(p_trace s \<noteq> [] \<longrightarrow> probed (p_trace s ! 0) = Some 0) \<and>
         (\<forall>i j a a'. i < j \<and> j < length (p_trace s) \<and> probed (p_trace s ! i) = Some a \<and>
            probed (p_trace s ! j) = Some a' \<longrightarrow> a \<le> a') \<and>
         (\<forall>i a ident. i < length (p_trace s) \<and> p_trace s ! i = Probe a ident Unavailable \<longrightarrow>
            (Suc i < length (p_trace s) \<longrightarrow>
               (\<exists>out. p_trace s ! Suc i = Probe (Suc a) (pygmy_id dk (Suc a)) out)) \<and>
            (\<forall>j a'. i < j \<and> j < length (p_trace s) \<and> probed (p_trace s ! j) = Some a' \<longrightarrow>
               a < a'))"
proof -
  have I: "loop_inv dk s"
    using assms loop_inv_result [of env dk s] steps_inv [of n env dk probe_start s]
      loop_inv_start [of dk]
    by blast
  then have ord: "ordered (p_trace s)" and adj: "window 1 after_unavailable (p_trace s)"
    and fst: "inv_first s"
    by (simp_all add: loop_inv_def probe_inv_def)
  have 1: "p_trace s \<noteq> [] \<longrightarrow> probed (p_trace s ! 0) = Some 0"
    using fst by (simp add: inv_first_def)
  have 2: "\<forall>i j a a'. i < j \<and> j < length (p_trace s) \<and> probed (p_trace s ! i) = Some a \<and>
            probed (p_trace s ! j) = Some a' \<longrightarrow> a \<le> a'"
  proof (intro allI impI, elim conjE)
    fix i j a a'
    assume h: "i < j" "j < length (p_trace s)" "probed (p_trace s ! i) = Some a"
      "probed (p_trace s ! j) = Some a'"
    obtain ident out where "p_trace s ! i = Probe a ident out"
      using probed_Some [OF h(3)] by blast
    then show "a \<le> a'" using ord h(1,2,4) unfolding ordered_def by blast
  qed
  have 3: "\<forall>i a ident. i < length (p_trace s) \<and> p_trace s ! i = Probe a ident Unavailable \<longrightarrow>
            (Suc i < length (p_trace s) \<longrightarrow>
               (\<exists>out. p_trace s ! Suc i = Probe (Suc a) (pygmy_id dk (Suc a)) out)) \<and>
            (\<forall>j a'. i < j \<and> j < length (p_trace s) \<and> probed (p_trace s ! j) = Some a' \<longrightarrow>
               a < a')"
  proof (intro allI impI, elim conjE)
    fix i a ident
    assume h: "i < length (p_trace s)" "p_trace s ! i = Probe a ident Unavailable"
    have "\<exists>out. p_trace s ! Suc i = Probe (Suc a) (pygmy_id dk (Suc a)) out"
      if "Suc i < length (p_trace s)"
    proof -
      have "probed (p_trace s ! (i + 1)) = Some (Suc a)"
        using adj that h(2) unfolding window_def after_unavailable_def by simp
      then show ?thesis using trace_ident [OF I that] by simp
    qed
    moreover have "\<forall>j a'. i < j \<and> j < length (p_trace s) \<and> probed (p_trace s ! j) = Some a' \<longrightarrow>
        a < a'"
      using ord h(2) unfolding ordered_def by blast
    ultimately show "(Suc i < length (p_trace s) \<longrightarrow>
               (\<exists>out. p_trace s ! Suc i = Probe (Suc a) (pygmy_id dk (Suc a)) out)) \<and>
            (\<forall>j a'. i < j \<and> j < length (p_trace s) \<and> probed (p_trace s ! j) = Some a' \<longrightarrow>
               a < a')"
      by blast
  qed
  show ?thesis using 1 2 3 by blast
qed

text \<open>
  Slots 0 and 1 are in use and slot 2 is free: two binds fail at once, the third opens. And a
  run that never returns, seen after two passes.
\<close>

theorem probing_order_witness:
  "init_slot_loop two_taken ''P'' probe_start = Some two_taken_result \<and>
   probed (p_trace two_taken_result ! 0) = Some 0 \<and>
   p_trace two_taken_result ! 0 = Probe 0 ''pygmy_P_0'' Unavailable \<and>
   (\<exists>out. p_trace two_taken_result ! Suc 0 = Probe (Suc 0) (pygmy_id ''P'' (Suc 0)) out) \<and>
   init_slot_steps 2 persistent_error ''P'' probe_start = Some still_failing \<and>
   probed (p_trace still_failing ! 0) = Some 0"
proof -
  have run: "init_slot_loop two_taken ''P'' probe_start = Some two_taken_result"
    by (simp add: loop_eval two_taken_def two_taken_result_def)
  have e: "p_trace two_taken_result \<noteq> []" "0 < length (p_trace two_taken_result)"
    "Suc 0 < length (p_trace two_taken_result)"
    "p_trace two_taken_result ! 0 = Probe 0 ''pygmy_P_0'' Unavailable"
    by (simp_all add: two_taken_result_def)
  have steps: "init_slot_steps 2 persistent_error ''P'' probe_start = Some still_failing"
    by (simp add: probe_start_def probe_step_def pygmy_id_def digit_char_def Let_def
        eval_nat_numeral persistent_error_def still_failing_def)
  have f: "p_trace still_failing \<noteq> []" by (simp add: still_failing_def)
  have A: "probed (p_trace two_taken_result ! 0) = Some 0 \<and>
     (\<exists>out. p_trace two_taken_result ! Suc 0 = Probe (Suc 0) (pygmy_id ''P'' (Suc 0)) out)"
    using probing_order [OF disjI1, OF run] e by blast
  have B: "probed (p_trace still_failing ! 0) = Some 0"
    using probing_order [OF disjI2, OF steps] f by blast
  show ?thesis using run e(4) steps A B by simp
qed

subsection \<open>Backoff, retry and termination\<close>

text \<open>
  Claim C4, as the source has it. The claim says that the retries after a bind error other
  than \<^verbatim>\<open>unavailable-id\<close> are bounded by an attempt budget, so that the loop always
  terminates. The loop has no such budget: if every bind fails with such an error, the loop
  never returns.
\<close>

theorem persistent_error_never_returns:
  "init_slot_loop persistent_error ''P'' probe_start = None"
proof (rule ccontr)
  assume "init_slot_loop persistent_error ''P'' probe_start \<noteq> None"
  then obtain s where s: "init_slot_loop persistent_error ''P'' probe_start = Some s" by auto
  have "(p_peer s = None \<and> p_slot s = 0) \<and> \<not> (p_peer s = None \<and> p_slot s < 10)"
  proof (rule loop_rule [where I = "\<lambda>s. p_peer s = None \<and> p_slot s = 0", OF s])
    show "p_peer probe_start = None \<and> p_slot probe_start = 0" by (simp add: probe_start_def)
  next
    fix a b
    assume "p_peer a = None \<and> p_slot a = 0" "probe_step persistent_error ''P'' a = Some b"
    then show "p_peer b = None \<and> p_slot b = 0"
      by (auto simp: probe_step_def Let_def persistent_error_def)
  qed
  then show False by auto
qed

text \<open>
  Claim C4, amended. A bind error other than \<^verbatim>\<open>unavailable-id\<close> is followed by a timer of
  5000 ms and then by a bind on the same slot, with the same identifier. These retries are
  not bounded by any budget: if the first \<open>M\<close> binds all fail this way, the loop has made
  \<open>M\<close> binds on slot 0, each followed by the timer, and goes on. The loop returns if every new
  peer answers and, from some bind \<open>N\<close> on, no answer is such an error.
\<close>

theorem backoff_then_same_slot:
  "(\<forall>s i a ident. init_slot_loop env dk probe_start = Some s \<and> i < length (p_trace s) \<and>
      p_trace s ! i = Probe a ident OtherError \<longrightarrow>
      Suc (Suc i) < length (p_trace s) \<and> p_trace s ! Suc i = SetTimeout 5000 \<and>
      (\<exists>out. p_trace s ! Suc (Suc i) = Probe a ident out)) \<and>
   ((\<forall>n<M. env n = OtherError) \<longrightarrow>
      init_slot_steps M env dk probe_start =
        Some \<lparr>p_slot = 0, p_peer = None, p_tries = M,
          p_trace = concat (replicate M [Probe 0 (pygmy_id dk 0) OtherError, SetTimeout 5000])\<rparr>) \<and>
   ((\<forall>n. env n \<noteq> Silent) \<and> (\<forall>n. env (N + n) \<noteq> OtherError) \<longrightarrow>
      (\<exists>s. init_slot_loop env dk probe_start = Some s))"
proof -
  have "\<forall>n\<ge>N. env n \<noteq> OtherError" if "\<forall>n. env (N + n) \<noteq> OtherError"
    using that by (metis le_add_diff_inverse)
  then show ?thesis
    using loop_returns [of env N dk probe_start] retry_in_result [of env dk]
      retries_unbounded [of M env dk]
    by blast
qed

text \<open>Two transient errors on slot 0, then the bind opens.\<close>

theorem backoff_then_same_slot_witness:
  "(\<forall>n. flaky n \<noteq> Silent) \<and> (\<forall>n. flaky (2 + n) \<noteq> OtherError) \<and>
   (\<exists>s. init_slot_loop flaky ''P'' probe_start = Some s \<and> 0 < length (p_trace s) \<and>
      p_trace s ! 0 = Probe 0 ''pygmy_P_0'' OtherError \<and>
      Suc (Suc 0) < length (p_trace s) \<and> p_trace s ! Suc 0 = SetTimeout 5000 \<and>
      (\<exists>out. p_trace s ! Suc (Suc 0) = Probe 0 ''pygmy_P_0'' out)) \<and>
   init_slot_steps 2 flaky ''P'' probe_start = Some still_failing"
proof -
  have a: "\<forall>n. flaky n \<noteq> Silent" and b: "\<forall>n. flaky (2 + n) \<noteq> OtherError"
    and c: "\<forall>n<2. flaky n = OtherError"
    by (simp_all add: flaky_def)
  have run: "init_slot_loop flaky ''P'' probe_start =
     Some \<lparr>p_slot = 0, p_peer = Some (new_peer ''pygmy_P_0''), p_tries = 3,
       p_trace = [Probe 0 ''pygmy_P_0'' OtherError, SetTimeout 5000,
                  Probe 0 ''pygmy_P_0'' OtherError, SetTimeout 5000,
                  Probe 0 ''pygmy_P_0'' Opened]\<rparr>"
    by (simp add: loop_eval flaky_def)
  note T = backoff_then_same_slot [of flaky "''P''" 2 2]
  from T a b obtain s where s: "init_slot_loop flaky ''P'' probe_start = Some s" by blast
  then have e: "0 < length (p_trace s)" "p_trace s ! 0 = Probe 0 ''pygmy_P_0'' OtherError"
    using run by auto
  have A: "Suc (Suc 0) < length (p_trace s) \<and> p_trace s ! Suc 0 = SetTimeout 5000 \<and>
      (\<exists>out. p_trace s ! Suc (Suc 0) = Probe 0 ''pygmy_P_0'' out)"
    using T s e by blast
  have "init_slot_steps 2 flaky ''P'' probe_start =
        Some \<lparr>p_slot = 0, p_peer = None, p_tries = 2,
          p_trace = concat (replicate 2 [Probe 0 (pygmy_id ''P'' 0) OtherError, SetTimeout 5000])\<rparr>"
    using T c by blast
  then have B: "init_slot_steps 2 flaky ''P'' probe_start = Some still_failing"
    by (simp add: still_failing_def pygmy_id_def digit_char_def eval_nat_numeral)
  show ?thesis using a b s e A B by blast
qed

subsection \<open>All slots taken\<close>

text \<open>
  Claim C7. If the device key is read without an exception and the slot loop returns without
  a peer, then \<^verbatim>\<open>init\<close> returns normally; the stored peer, and with it the derived presence
  atom, the connections and the wallet are as before (only the local storage, which may have
  received a new device key, and the history differ); the history gained nothing but the
  binds and the backoff timers of the loop, so neither the handler of \<^verbatim>\<open>'connection'\<close>
  nor the handler of \<^verbatim>\<open>'error'\<close> that names \<^verbatim>\<open>destroy\<close> was registered; and the loop
  ended on slot 10 after each of the slots 0 to 9 had answered \<^verbatim>\<open>unavailable-id\<close>.
\<close>

theorem init_exhausted:
  assumes "myDevicePubkeyAtom L gen key (localStorage st) = Inr (dk, store)"
    and "init_slot_loop env dk probe_start = Some s" and "p_peer s = None"
  shows "p2pAtom_init L gen env key st =
           Some (Inr (st\<lparr>localStorage := store, log := log st @ p_trace s\<rparr>)) \<and>
         myPeer (st\<lparr>localStorage := store, log := log st @ p_trace s\<rparr>) = myPeer st \<and>
         myOnlineStateAtom isOnline (st\<lparr>localStorage := store, log := log st @ p_trace s\<rparr>) =
           myOnlineStateAtom isOnline st \<and>
         p_slot s = 10 \<and>
         (\<forall>k<10. Probe k (pygmy_id dk k) Unavailable \<in> set (p_trace s)) \<and>
         (\<forall>e \<in> set (p_trace s).
            (\<exists>a out. e = Probe a (pygmy_id dk a) out) \<or> e = SetTimeout 5000)"
proof -
  have I: "loop_inv dk s" and ex: "\<not> (p_peer s = None \<and> p_slot s < 10)"
    using loop_inv_result [OF assms(2)] by simp_all
  then have ie: "inv_entries dk s" and cov: "inv_covered dk s"
    by (simp_all add: loop_inv_def probe_inv_def)
  have ge: "10 \<le> p_slot s" using ex assms(3) by simp
  have "\<not> 10 < p_slot s"
  proof
    assume "10 < p_slot s"
    then have "Probe 10 (pygmy_id dk 10) Unavailable \<in> set (p_trace s)"
      using cov unfolding inv_covered_def by blast
    then show False using ie unfolding inv_entries_def by blast
  qed
  then have slot: "p_slot s = 10" using ge by simp
  have 1: "p2pAtom_init L gen env key st =
             Some (Inr (st\<lparr>localStorage := store, log := log st @ p_trace s\<rparr>))"
    using assms by (simp add: p2pAtom_init_def)
  have 2: "myPeer (st\<lparr>localStorage := store, log := log st @ p_trace s\<rparr>) = myPeer st"
    "myOnlineStateAtom isOnline (st\<lparr>localStorage := store, log := log st @ p_trace s\<rparr>) =
       myOnlineStateAtom isOnline st"
    by (simp_all add: myOnlineStateAtom_def)
  have 3: "\<forall>k<10. Probe k (pygmy_id dk k) Unavailable \<in> set (p_trace s)"
    using cov slot unfolding inv_covered_def by simp
  have 4: "\<forall>e \<in> set (p_trace s). (\<exists>a out. e = Probe a (pygmy_id dk a) out) \<or> e = SetTimeout 5000"
  proof
    fix e assume e: "e \<in> set (p_trace s)"
    show "(\<exists>a out. e = Probe a (pygmy_id dk a) out) \<or> e = SetTimeout 5000"
    proof (cases e)
      case (Probe a ident out)
      then show ?thesis using ie e unfolding inv_entries_def by blast
    qed (use ie e in \<open>auto simp: inv_entries_def\<close>)
  qed
  show ?thesis using 1 2 slot 3 4 by blast
qed

text \<open>A first \<^verbatim>\<open>init\<close> on a device whose ten slots are all in use.\<close>

theorem init_exhausted_witness:
  "myDevicePubkeyAtom toy_library (''S'', ''P'') ''me'' (localStorage offline) =
     Inr (''P'', [''device_key_me'' \<mapsto> ''S'']) \<and>
   init_slot_loop all_taken ''P'' probe_start = Some all_taken_result \<and>
   p_peer all_taken_result = None \<and>
   p2pAtom_init toy_library (''S'', ''P'') all_taken ''me'' offline =
     Some (Inr (offline\<lparr>localStorage := [''device_key_me'' \<mapsto> ''S''],
                        log := log offline @ p_trace all_taken_result\<rparr>)) \<and>
   myPeer (offline\<lparr>localStorage := [''device_key_me'' \<mapsto> ''S''],
                   log := log offline @ p_trace all_taken_result\<rparr>) = None \<and>
   p_slot all_taken_result = 10"
proof -
  have a: "myDevicePubkeyAtom toy_library (''S'', ''P'') ''me'' (localStorage offline) =
     Inr (''P'', [''device_key_me'' \<mapsto> ''S''])"
    by (simp add: myDevicePubkeyAtom_def offline_def)
  have b: "init_slot_loop all_taken ''P'' probe_start = Some all_taken_result"
    by (simp add: loop_eval all_taken_def all_taken_result_def)
  have c: "p_peer all_taken_result = None" by (simp add: all_taken_result_def)
  have d: "myPeer offline = None" by (simp add: offline_def)
  show ?thesis using init_exhausted [OF a b c] a b c d by simp
qed

section \<open>The handshake\<close>

subsection \<open>What one incoming message does\<close>

lemma data_ignored:
  assumes "get_type d = Some t"
    and "(t \<noteq> JStr ''challenge'' \<and> t \<noteq> JStr ''verification'') \<or>
         (t = JStr ''verification'' \<and> \<not> truthy (get_message d)) \<or>
         (t = JStr ''challenge'' \<and>
            (localStorage st (''device_key_'' @ myPubkey) = None \<or>
             localStorage st (''device_key_'' @ myPubkey) = Some []))"
  shows "validateConnection_data L nonce myPubkey target send close onVerify d st = st"
  using assms by (auto simp: validateConnection_data_def)

lemma data_throws:
  assumes "get_type d = None \<or>
     (get_type d = Some (JStr ''challenge'') \<and>
        localStorage st (''device_key_'' @ myPubkey) = Some dk \<and> dk \<noteq> [] \<and>
        sign_b58 L dk (get_message d) = None) \<or>
     (get_type d = Some (JStr ''verification'') \<and> truthy (get_message d) \<and>
        verify_b58 L nonce (get_message d) target = None)"
  shows "validateConnection_data L nonce myPubkey target send close onVerify d st = close st"
  using assms by (auto simp: validateConnection_data_def)

lemma data_one_action:
  "validateConnection_data L nonce myPubkey target send close onVerify d st = st \<or>
   validateConnection_data L nonce myPubkey target send close onVerify d st = close st \<or>
   (\<exists>sg. validateConnection_data L nonce myPubkey target send close onVerify d st =
      send (Verification sg) st) \<or>
   (\<exists>b. validateConnection_data L nonce myPubkey target send close onVerify d st =
      onVerify b st)"
  by (auto simp: validateConnection_data_def split: option.splits)

text \<open>
  Claim C10. Whatever the connection's \<^verbatim>\<open>send\<close> and \<^verbatim>\<open>close\<close> and the callback
  \<^verbatim>\<open>onVerify\<close> do, the data handler leaves the state exactly as it was, so it called none of
  them, when the type tag of the payload is neither \<^verbatim>\<open>'challenge'\<close> nor \<^verbatim>\<open>'verification'\<close>, when
  it is \<^verbatim>\<open>'verification'\<close> with an empty (falsy) message, and when it is \<^verbatim>\<open>'challenge'\<close> and
  the local storage holds no device key for the local identity (none, or the empty text). The
  tag is the value of \<^verbatim>\<open>payload.type\<close>; for the payloads \<^verbatim>\<open>null\<close> and \<^verbatim>\<open>undefined\<close>, which have no
  tag, reading it throws.
\<close>

theorem malformed_data_ignored:
  assumes "get_type d = Some t"
    and "(t \<noteq> JStr ''challenge'' \<and> t \<noteq> JStr ''verification'') \<or>
         (t = JStr ''verification'' \<and> \<not> truthy (get_message d)) \<or>
         (t = JStr ''challenge'' \<and>
            (localStorage st (''device_key_'' @ myPubkey) = None \<or>
             localStorage st (''device_key_'' @ myPubkey) = Some []))"
  shows "validateConnection_data L nonce myPubkey target send close onVerify d st = st"
  using data_ignored [OF assms] .

text \<open>
  An unknown tag, an empty verification and a challenge for an account without a device key,
  on an inbound connection.
\<close>

theorem malformed_data_ignored_witness:
  "validateConnection_data toy_library ''n1'' ''me'' (JStr ''K'')
      (conn_send (DataConnection ''pygmy_K_0'')) (conn_close (DataConnection ''pygmy_K_0''))
      (init_onVerify (DataConnection ''pygmy_K_0'')) (Obj (JStr ''hello'') (JStr ''x'')) online
     = online \<and>
   validateConnection_data toy_library ''n1'' ''me'' (JStr ''K'')
      (conn_send (DataConnection ''pygmy_K_0'')) (conn_close (DataConnection ''pygmy_K_0''))
      (init_onVerify (DataConnection ''pygmy_K_0'')) (Obj (JStr ''verification'') (JStr [])) online
     = online \<and>
   validateConnection_data toy_library ''n1'' ''you'' (JStr ''K'')
      (conn_send (DataConnection ''pygmy_K_0'')) (conn_close (DataConnection ''pygmy_K_0''))
      (init_onVerify (DataConnection ''pygmy_K_0'')) (wire (Challenge ''n2'')) online
     = online"
proof -
  have a: "localStorage online (''device_key_'' @ ''you'') = None" by (simp add: online_def)
  show ?thesis
    using
      malformed_data_ignored [of "Obj (JStr ''hello'') (JStr ''x'')" "JStr ''hello''" online "''me''"
        toy_library "''n1''" "JStr ''K''" "conn_send (DataConnection ''pygmy_K_0'')"
        "conn_close (DataConnection ''pygmy_K_0'')" "init_onVerify (DataConnection ''pygmy_K_0'')"]
      malformed_data_ignored [of "Obj (JStr ''verification'') (JStr [])" "JStr ''verification''"
        online "''me''" toy_library "''n1''" "JStr ''K''" "conn_send (DataConnection ''pygmy_K_0'')"
        "conn_close (DataConnection ''pygmy_K_0'')" "init_onVerify (DataConnection ''pygmy_K_0'')"]
      malformed_data_ignored [of "wire (Challenge ''n2'')" "JStr ''challenge''"
        online "''you''" toy_library "''n1''" "JStr ''K''" "conn_send (DataConnection ''pygmy_K_0'')"
        "conn_close (DataConnection ''pygmy_K_0'')" "init_onVerify (DataConnection ''pygmy_K_0'')"]
      a
    by simp
qed

text \<open>
  Claim C2, as the source has it. The claim says that any malformed message and a missing
  local signing key close the channel and report failure. A message whose tag is neither
  \<^verbatim>\<open>'challenge'\<close> nor \<^verbatim>\<open>'verification'\<close> does nothing at all on a listening device, and neither
  does a challenge that arrives when the device key is gone from the local storage: the
  connection is not closed and nothing is reported.
\<close>

theorem malformed_message_not_closed:
  "init_on_connection toy_library ''me'' ''n1'' (DataConnection ''pygmy_K_0'')
     [EvData (Obj (JStr ''hello'') (JStr ''x''))] online = online \<and>
   init_on_connection toy_library ''me'' ''n1'' (DataConnection ''pygmy_K_0'')
     [EvData (wire (Challenge ''n2''))] cleared = cleared"
  by (simp add: init_on_connection_def inbound_event_def validateConnection_data_def
      online_def cleared_def)

text \<open>
  Claim C2, amended. An exception while an incoming message is handled (the payload is
  \<^verbatim>\<open>null\<close> or \<^verbatim>\<open>undefined\<close>, or signing or verifying throws, as on an undecodable key or
  signature) closes the channel and does nothing else; closing the channel is also all that
  a report of \<^verbatim>\<open>verified = false\<close> does in both callers. A message with an unknown tag, a
  verification with an empty message and a challenge that finds no local device key are
  ignored: the channel stays open and no verdict is reported. In every case the handler does
  at most one thing (nothing, one close, one verification reply or one call of
  \<^verbatim>\<open>onVerify\<close>), so it never retries.
\<close>

theorem handshake_failure_paths:
  "(get_type d = None \<or>
     (get_type d = Some (JStr ''challenge'') \<and>
        localStorage st (''device_key_'' @ myPubkey) = Some dk \<and> dk \<noteq> [] \<and>
        sign_b58 L dk (get_message d) = None) \<or>
     (get_type d = Some (JStr ''verification'') \<and> truthy (get_message d) \<and>
        verify_b58 L nonce (get_message d) target = None) \<longrightarrow>
     validateConnection_data L nonce myPubkey target send close onVerify d st = close st) \<and>
   init_onVerify c False st1 = conn_close c st1 \<and>
   connect_onVerify c False s1 = conn_close c s1 \<and>
   (get_type d = Some t \<and>
     ((t \<noteq> JStr ''challenge'' \<and> t \<noteq> JStr ''verification'') \<or>
      (t = JStr ''verification'' \<and> \<not> truthy (get_message d)) \<or>
      (t = JStr ''challenge'' \<and>
         (localStorage st (''device_key_'' @ myPubkey) = None \<or>
          localStorage st (''device_key_'' @ myPubkey) = Some []))) \<longrightarrow>
     validateConnection_data L nonce myPubkey target send close onVerify d st = st) \<and>
   (validateConnection_data L nonce myPubkey target send close onVerify d st = st \<or>
    validateConnection_data L nonce myPubkey target send close onVerify d st = close st \<or>
    (\<exists>sg. validateConnection_data L nonce myPubkey target send close onVerify d st =
       send (Verification sg) st) \<or>
    (\<exists>b. validateConnection_data L nonce myPubkey target send close onVerify d st =
       onVerify b st))"
proof -
  have "init_onVerify c False st1 = conn_close c st1"
    and "connect_onVerify c False s1 = conn_close c s1"
    by (simp_all add: init_onVerify_def connect_onVerify_def)
  then show ?thesis
    using data_throws [of d st myPubkey dk L nonce target send close onVerify]
      data_ignored [of d t st myPubkey L nonce target send close onVerify]
      data_one_action [of L nonce myPubkey target send close onVerify d st]
    by blast
qed

text \<open>
  On an inbound connection: a signature that is not text makes the verification throw and the
  connection is closed; a challenge for an account without a device key is ignored.
\<close>

theorem handshake_failure_paths_witness:
  "validateConnection_data toy_library ''n1'' ''me'' (JStr ''K'')
      (conn_send (DataConnection ''pygmy_K_0'')) (conn_close (DataConnection ''pygmy_K_0''))
      (init_onVerify (DataConnection ''pygmy_K_0'')) (Obj (JStr ''verification'') (JNum 7)) online
     = conn_close (DataConnection ''pygmy_K_0'') online \<and>
   validateConnection_data toy_library ''n1'' ''me'' (JStr ''K'')
      (conn_send (DataConnection ''pygmy_K_0'')) (conn_close (DataConnection ''pygmy_K_0''))
      (init_onVerify (DataConnection ''pygmy_K_0'')) (wire (Challenge ''n2'')) cleared
     = cleared"
proof -
  have a: "verify_b58 toy_library ''n1'' (JNum 7) (JStr ''K'') = None"
    by (simp add: toy_library_def)
  have b: "localStorage cleared (''device_key_'' @ ''me'') = None" by (simp add: cleared_def)
  have A: "validateConnection_data toy_library ''n1'' ''me'' (JStr ''K'')
      (conn_send (DataConnection ''pygmy_K_0'')) (conn_close (DataConnection ''pygmy_K_0''))
      (init_onVerify (DataConnection ''pygmy_K_0'')) (Obj (JStr ''verification'') (JNum 7)) online
     = conn_close (DataConnection ''pygmy_K_0'') online"
    using
      handshake_failure_paths [where d = "Obj (JStr ''verification'') (JNum 7)" and st = online
        and myPubkey = "''me''" and dk = "''D''" and L = toy_library and nonce = "''n1''"
        and target = "JStr ''K''" and send = "conn_send (DataConnection ''pygmy_K_0'')"
        and close = "conn_close (DataConnection ''pygmy_K_0'')"
        and onVerify = "init_onVerify (DataConnection ''pygmy_K_0'')"
        and t = "JStr ''verification''"]
      a
    by simp
  have B: "validateConnection_data toy_library ''n1'' ''me'' (JStr ''K'')
      (conn_send (DataConnection ''pygmy_K_0'')) (conn_close (DataConnection ''pygmy_K_0''))
      (init_onVerify (DataConnection ''pygmy_K_0'')) (wire (Challenge ''n2'')) cleared
     = cleared"
    using
      handshake_failure_paths [where d = "wire (Challenge ''n2'')" and st = cleared
        and myPubkey = "''me''" and dk = "''D''" and L = toy_library and nonce = "''n1''"
        and target = "JStr ''K''" and send = "conn_send (DataConnection ''pygmy_K_0'')"
        and close = "conn_close (DataConnection ''pygmy_K_0'')"
        and onVerify = "init_onVerify (DataConnection ''pygmy_K_0'')"
        and t = "JStr ''challenge''"]
      b
    by simp
  show ?thesis using A B by simp
qed

subsection \<open>Publication on the inbound path\<close>

lemma inbound_event_connections:
  "connections (inbound_event L nonce key c ev st) =
   connections st @ (if verifies L nonce (claimed_key c) ev then [c] else [])"
  by (auto simp: verifies_def inbound_event_def validateConnection_data_def
      validateConnection_open_def init_onVerify_def conn_send_def conn_close_def
      add_connection_def split: conn_event.splits option.splits)

lemma inbound_fold_connections:
  "connections (fold (inbound_event L nonce key c) evs st) =
   connections st @ replicate (length (filter (verifies L nonce (claimed_key c)) evs)) c"
  by (induction evs arbitrary: st) (simp_all add: inbound_event_connections)

lemma inbound_only_if:
  assumes "connections (fold (inbound_event L nonce key c) evs st) \<noteq> connections st"
  shows "\<exists>ev \<in> set evs. verifies L nonce (claimed_key c) ev"
proof (rule ccontr)
  assume "\<not> (\<exists>ev \<in> set evs. verifies L nonce (claimed_key c) ev)"
  then have "filter (verifies L nonce (claimed_key c)) evs = []" by (simp add: filter_empty_conv)
  then show False using assms inbound_fold_connections [of L nonce key c evs st] by simp
qed

section \<open>The outbound attempts of \<^verbatim>\<open>connect\<close>\<close>

lemmas attempt_defs = connect_event_def validateConnection_data_def validateConnection_open_def
  connect_onVerify_def conn_send_def conn_close_def resolve_def clearTimeout_def

lemma connect_event_frame:
  "connections (connect_event L nonce me key c ev s) = connections s \<and>
   myPeer (connect_event L nonce me key c ev s) = myPeer s \<and>
   userWallet (connect_event L nonce me key c ev s) = userWallet s \<and>
   localStorage (connect_event L nonce me key c ev s) = localStorage s"
  by (auto simp: attempt_defs split: conn_event.splits option.splits)

lemma connect_fold_frame:
  "connections (fold (connect_event L nonce me key c) evs s) = connections s \<and>
   myPeer (fold (connect_event L nonce me key c) evs s) = myPeer s \<and>
   userWallet (fold (connect_event L nonce me key c) evs s) = userWallet s \<and>
   localStorage (fold (connect_event L nonce me key c) evs s) = localStorage s"
  by (induction evs arbitrary: s) (simp_all add: connect_event_frame)

lemma connect_event_resolved:
  "resolved (connect_event L nonce me key c ev s) = Some (Some c') \<Longrightarrow>
   resolved s = Some (Some c') \<or> (c' = c \<and> verifies L nonce (JStr key) ev)"
  by (auto simp: verifies_def attempt_defs split: conn_event.splits option.splits if_splits)

lemma connect_fold_resolved:
  "resolved (fold (connect_event L nonce me key c) evs s) = Some (Some c') \<Longrightarrow>
   resolved s = Some (Some c') \<or> (c' = c \<and> (\<exists>ev \<in> set evs. verifies L nonce (JStr key) ev))"
proof (induction evs arbitrary: s)
  case Nil
  then show ?case by simp
next
  case (Cons ev evs)
  from Cons.IH [of "connect_event L nonce me key c ev s"] Cons.prems
  have "resolved (connect_event L nonce me key c ev s) = Some (Some c') \<or>
        (c' = c \<and> (\<exists>ev \<in> set evs. verifies L nonce (JStr key) ev))" by simp
  then show ?case using connect_event_resolved [of L nonce me key c ev s c'] by auto
qed

text \<open>While the promise is pending, its timer is armed; so every attempt ends.\<close>

lemma connect_event_armed:
  "resolved s = None \<longrightarrow> expire_armed s \<Longrightarrow>
   resolved (connect_event L nonce me key c ev s) = None \<longrightarrow>
   expire_armed (connect_event L nonce me key c ev s)"
  by (auto simp: attempt_defs split: conn_event.splits option.splits if_splits)

lemma connect_fold_armed:
  "resolved s = None \<longrightarrow> expire_armed s \<Longrightarrow>
   resolved (fold (connect_event L nonce me key c) evs s) = None \<longrightarrow>
   expire_armed (fold (connect_event L nonce me key c) evs s)"
  by (induction evs arbitrary: s) (simp_all add: connect_event_armed)

lemma expire_resolved:
  "resolved s = None \<longrightarrow> expire_armed s \<Longrightarrow> resolved (expire s) \<noteq> None"
  by (auto simp: expire_def resolve_def)

lemma expire_frame:
  "connections (expire s) = connections s \<and> myPeer (expire s) = myPeer s \<and>
   log (expire s) = log s \<and> userWallet (expire s) = userWallet s \<and>
   localStorage (expire s) = localStorage s"
  by (simp add: expire_def resolve_def)

lemma expire_Some:
  "resolved (expire s) = Some (Some c') \<Longrightarrow> resolved s = Some (Some c')"
  by (auto simp: expire_def resolve_def split: if_splits)

lemma connect_event_log:
  "filter is_attempt_entry (log (connect_event L nonce me key c ev s)) =
   filter is_attempt_entry (log s)"
  by (auto simp: attempt_defs split: conn_event.splits option.splits if_splits)

lemma connect_fold_log:
  "filter is_attempt_entry (log (fold (connect_event L nonce me key c) evs s)) =
   filter is_attempt_entry (log s)"
  by (induction evs arbitrary: s) (simp_all add: connect_event_log)

lemma connect_attempt_result:
  "\<exists>r st'. connect_attempt L nonce me key slot evs st = Some (r, st') \<and>
     connections st' = connections st \<and> myPeer st' = myPeer st \<and>
     userWallet st' = userWallet st \<and> localStorage st' = localStorage st \<and>
     filter is_attempt_entry (log st') =
       filter is_attempt_entry (log st) @ [SetTimeout 5000, PeerConnect slot (pygmy_id key slot)] \<and>
     (\<forall>c'. r = Some c' \<longrightarrow> c' = DataConnection (pygmy_id key slot) \<and>
        (\<exists>ev \<in> set evs. verifies L nonce (JStr key) ev))"
proof -
  let ?c = "DataConnection (pygmy_id key slot)"
  let ?s0 = "\<lparr>myPeer = myPeer st, localStorage = localStorage st, userWallet = userWallet st,
               connections = connections st,
               log = log st @ [SetTimeout 5000, PeerConnect slot (pygmy_id key slot)],
               p2pAtom_value = p2pAtom_value st,
               resolved = None, expire_armed = True\<rparr>"
  let ?s1 = "expire (fold (connect_event L nonce me key ?c) evs ?s0)"
  have armed: "resolved ?s1 \<noteq> None"
    by (rule expire_resolved, rule connect_fold_armed) simp
  then obtain r where r: "resolved ?s1 = Some r" by auto
  have fr: "connections ?s1 = connections st" "myPeer ?s1 = myPeer st"
    "userWallet ?s1 = userWallet st" "localStorage ?s1 = localStorage st"
    by (simp_all add: expire_frame connect_fold_frame)
  have lg: "filter is_attempt_entry (log ?s1) =
       filter is_attempt_entry (log st) @ [SetTimeout 5000, PeerConnect slot (pygmy_id key slot)]"
    by (simp add: expire_frame connect_fold_log)
  have v: "\<forall>c'. r = Some c' \<longrightarrow> c' = ?c \<and> (\<exists>ev \<in> set evs. verifies L nonce (JStr key) ev)"
  proof (intro allI impI)
    fix c' assume "r = Some c'"
    then have "resolved (fold (connect_event L nonce me key ?c) evs ?s0) = Some (Some c')"
      using r expire_Some [of "fold (connect_event L nonce me key ?c) evs ?s0" c'] by simp
    then show "c' = ?c \<and> (\<exists>ev \<in> set evs. verifies L nonce (JStr key) ev)"
      using connect_fold_resolved [of L nonce me key ?c evs ?s0 c'] by simp
  qed
  have "connect_attempt L nonce me key slot evs st =
          Some (r, \<lparr>myPeer = myPeer ?s1, localStorage = localStorage ?s1,
                     userWallet = userWallet ?s1, connections = connections ?s1, log = log ?s1,
                     p2pAtom_value = p2pAtom_value ?s1\<rparr>)"
    using r by (simp add: connect_attempt_def Let_def)
  then show ?thesis using fr lg v by simp
qed

lemma connectToSlots_result:
  "\<exists>r st'. connectToSlots L nonces cenv me key slot None st = Some (r, st') \<and>
     connections st' = connections st \<and> myPeer st' = myPeer st \<and> userWallet st' = userWallet st \<and>
     (\<forall>c'. r = Some c' \<longrightarrow>
        (\<exists>k. slot \<le> k \<and> k < 10 \<and> c' = DataConnection (pygmy_id key k) \<and>
           (\<exists>ev \<in> set (cenv k). verifies L (nonces k) (JStr key) ev))) \<and>
     ((\<forall>k<10. \<forall>ev \<in> set (cenv k). \<not> verifies L (nonces k) (JStr key) ev) \<longrightarrow>
        r = None \<and>
        filter is_attempt_entry (log st') =
          filter is_attempt_entry (log st) @ concat (map (attempt_entries key) [slot..<10]))"
proof (induction "10 - slot" arbitrary: slot st)
  case 0
  then have "connectToSlots L nonces cenv me key slot None st = Some (None, st)"
    by (subst connectToSlots.simps) simp
  then show ?case using 0 by simp
next
  case (Suc n)
  then have lt: "slot < 10" by simp
  obtain r1 st1 where
    a: "connect_attempt L (nonces slot) me key slot (cenv slot) st = Some (r1, st1)"
    and fr: "connections st1 = connections st" "myPeer st1 = myPeer st"
      "userWallet st1 = userWallet st"
    and lg: "filter is_attempt_entry (log st1) =
      filter is_attempt_entry (log st) @ attempt_entries key slot"
    and v: "\<forall>c'. r1 = Some c' \<longrightarrow> c' = DataConnection (pygmy_id key slot) \<and>
        (\<exists>ev \<in> set (cenv slot). verifies L (nonces slot) (JStr key) ev)"
    using connect_attempt_result [of L "nonces slot" me key slot "cenv slot" st]
    unfolding attempt_entries_def by blast
  have unf: "connectToSlots L nonces cenv me key slot None st =
             connectToSlots L nonces cenv me key (Suc slot) r1 st1"
    using lt a by (subst connectToSlots.simps) simp
  show ?case
  proof (cases r1)
    case None
    have n: "n = 10 - Suc slot" using Suc.hyps(2) by simp
    obtain r st' where
      ih: "connectToSlots L nonces cenv me key (Suc slot) None st1 = Some (r, st')"
      "connections st' = connections st1" "myPeer st' = myPeer st1"
      "userWallet st' = userWallet st1"
      "\<forall>c'. r = Some c' \<longrightarrow>
        (\<exists>k. Suc slot \<le> k \<and> k < 10 \<and> c' = DataConnection (pygmy_id key k) \<and>
           (\<exists>ev \<in> set (cenv k). verifies L (nonces k) (JStr key) ev))"
      "(\<forall>k<10. \<forall>ev \<in> set (cenv k). \<not> verifies L (nonces k) (JStr key) ev) \<longrightarrow>
        r = None \<and>
        filter is_attempt_entry (log st') =
          filter is_attempt_entry (log st1) @ concat (map (attempt_entries key) [Suc slot..<10])"
      using Suc.hyps(1) [OF n, of st1] by blast
    have up: "[slot..<10] = slot # [Suc slot..<10]" using lt by (simp add: upt_conv_Cons)
    have "\<forall>c'. r = Some c' \<longrightarrow>
        (\<exists>k. slot \<le> k \<and> k < 10 \<and> c' = DataConnection (pygmy_id key k) \<and>
           (\<exists>ev \<in> set (cenv k). verifies L (nonces k) (JStr key) ev))"
      using ih(5) Suc_leD by blast
    moreover have "(\<forall>k<10. \<forall>ev \<in> set (cenv k). \<not> verifies L (nonces k) (JStr key) ev) \<longrightarrow>
        r = None \<and>
        filter is_attempt_entry (log st') =
          filter is_attempt_entry (log st) @ concat (map (attempt_entries key) [slot..<10])"
      using ih(6) lg up by simp
    ultimately show ?thesis using unf None ih(1-4) fr by simp
  next
    case (Some c1)
    then have "connectToSlots L nonces cenv me key slot None st = Some (Some c1, st1)"
      using unf by (subst (asm) connectToSlots.simps) simp
    moreover have "slot \<le> slot \<and> slot < 10 \<and> c1 = DataConnection (pygmy_id key slot) \<and>
           (\<exists>ev \<in> set (cenv slot). verifies L (nonces slot) (JStr key) ev)"
      using v Some lt by simp
    ultimately show ?thesis using fr lt by blast
  qed
qed

section \<open>Sessions reach the application only after verification\<close>

text \<open>
  Claim C1. On the inbound path, the handler that \<^verbatim>\<open>init\<close> registers publishes the
  connection once for each of its events that is a verification the library accepts for the
  handshake's own nonce and the key claimed in the remote identifier, that is, in the branch
  \<^verbatim>\<open>onVerify(true)\<close>, and changes the published connections in no other way; so it
  publishes only if there is such an event. On the outbound path, \<^verbatim>\<open>connect\<close> always
  returns, and it changes the published connections only by appending the connection of one
  slot below 10, and only if an event of that slot's attempt is a verification the library
  accepts for that attempt's nonce and the target key.
\<close>

theorem published_only_if_verified:
  "connections (init_on_connection L key nonce c evs st) =
     connections st @ replicate (length (filter (verifies L nonce (claimed_key c)) evs)) c \<and>
   (connections (init_on_connection L key nonce c evs st) \<noteq> connections st \<longrightarrow>
      (\<exists>ev \<in> set evs. verifies L nonce (claimed_key c) ev)) \<and>
   (\<exists>st'. p2pAtom_connect L nonces cenv target st = Some st') \<and>
   (\<forall>st'. p2pAtom_connect L nonces cenv target st = Some st' \<and>
      connections st' \<noteq> connections st \<longrightarrow>
      (\<exists>k<10. connections st' = connections st @ [DataConnection (pygmy_id target k)] \<and>
         (\<exists>ev \<in> set (cenv k). verifies L (nonces k) (JStr target) ev)))"
proof (intro conjI allI impI)
  show "connections (init_on_connection L key nonce c evs st) =
     connections st @ replicate (length (filter (verifies L nonce (claimed_key c)) evs)) c"
    unfolding init_on_connection_def by (rule inbound_fold_connections)
next
  assume "connections (init_on_connection L key nonce c evs st) \<noteq> connections st"
  then show "\<exists>ev \<in> set evs. verifies L nonce (claimed_key c) ev"
    using inbound_only_if [of L nonce key c evs st]
    unfolding init_on_connection_def by blast
next
  show "\<exists>st'. p2pAtom_connect L nonces cenv target st = Some st'"
  proof (cases "myPeer st")
    case None
    then show ?thesis by (simp add: p2pAtom_connect_def)
  next
    case (Some p)
    show ?thesis
    proof (cases "userWallet st")
      case None
      then show ?thesis using Some by (simp add: p2pAtom_connect_def)
    next
      case (Some me)
      obtain r st1 where "connectToSlots L nonces cenv me target 0 None st = Some (r, st1)"
        using connectToSlots_result [of L nonces cenv me target 0 st] by blast
      then show ?thesis
        using Some \<open>myPeer st = Some p\<close> by (cases r) (simp_all add: p2pAtom_connect_def)
    qed
  qed
next
  fix st'
  assume h: "p2pAtom_connect L nonces cenv target st = Some st' \<and>
    connections st' \<noteq> connections st"
  then obtain p me where pm: "myPeer st = Some p" "userWallet st = Some me"
    by (auto simp: p2pAtom_connect_def split: option.splits)
  obtain r st1 where r: "connectToSlots L nonces cenv me target 0 None st = Some (r, st1)"
    "connections st1 = connections st"
    "\<forall>c'. r = Some c' \<longrightarrow>
        (\<exists>k. 0 \<le> k \<and> k < 10 \<and> c' = DataConnection (pygmy_id target k) \<and>
           (\<exists>ev \<in> set (cenv k). verifies L (nonces k) (JStr target) ev))"
    using connectToSlots_result [of L nonces cenv me target 0 st] by blast
  show "\<exists>k<10. connections st' = connections st @ [DataConnection (pygmy_id target k)] \<and>
         (\<exists>ev \<in> set (cenv k). verifies L (nonces k) (JStr target) ev)"
  proof (cases r)
    case None
    then have "st' = st1" using h pm r(1) by (simp add: p2pAtom_connect_def)
    then show ?thesis using h r(2) by simp
  next
    case (Some c')
    then have "st' = add_connection c' st1" using h pm r(1) by (simp add: p2pAtom_connect_def)
    then have "connections st' = connections st @ [c']"
      using r(2) by (simp add: add_connection_def)
    then show ?thesis using r(3) Some by auto
  qed
qed

text \<open>
  A remote device with the key \<open>K\<close> completes the handshake: once towards the local listener,
  once as the listener on slot 2 that a local \<^verbatim>\<open>connect\<close> finds.
\<close>

theorem published_only_if_verified_witness:
  "connections (init_on_connection toy_library ''me'' ''n1'' (DataConnection ''pygmy_K_0'')
      handshake_events online) \<noteq> connections online \<and>
   (\<exists>ev \<in> set handshake_events.
      verifies toy_library ''n1'' (claimed_key (DataConnection ''pygmy_K_0'')) ev) \<and>
   (\<exists>st'. p2pAtom_connect toy_library fixed_nonce listener_on_2 ''K'' online = Some st' \<and>
      connections st' \<noteq> connections online \<and>
      (\<exists>k<10. connections st' = connections online @ [DataConnection (pygmy_id ''K'' k)] \<and>
         (\<exists>ev \<in> set (listener_on_2 k). verifies toy_library (fixed_nonce k) (JStr ''K'') ev)))"
proof -
  have a: "connections (init_on_connection toy_library ''me'' ''n1'' (DataConnection ''pygmy_K_0'')
      handshake_events online) \<noteq> connections online"
    by (simp add: init_on_connection_def inbound_event_def init_onVerify_def claimed_key_def
        element_def handshake_events_def online_def handler_eval)
  have b: "p2pAtom_connect toy_library fixed_nonce listener_on_2 ''K'' online =
     Some (online\<lparr>connections := [DataConnection ''pygmy_K_2''],
       log := [SetTimeout 5000, PeerConnect 0 ''pygmy_K_0'', SetTimeout 5000,
         PeerConnect 1 ''pygmy_K_1'', SetTimeout 5000, PeerConnect 2 ''pygmy_K_2'',
         ConnSend (DataConnection ''pygmy_K_2'') (Challenge ''n1''),
         ConnSend (DataConnection ''pygmy_K_2'') (Verification ''D:n2''), ClearTimeout]\<rparr>)"
    by (simp add: p2pAtom_connect_def connectToSlots.simps connect_attempt_def connect_event_def
        connect_onVerify_def expire_def resolve_def clearTimeout_def online_def fixed_nonce_def
        listener_on_2_def handler_eval)
  have c: "connections (online\<lparr>connections := [DataConnection ''pygmy_K_2''],
       log := [SetTimeout 5000, PeerConnect 0 ''pygmy_K_0'', SetTimeout 5000,
         PeerConnect 1 ''pygmy_K_1'', SetTimeout 5000, PeerConnect 2 ''pygmy_K_2'',
         ConnSend (DataConnection ''pygmy_K_2'') (Challenge ''n1''),
         ConnSend (DataConnection ''pygmy_K_2'') (Verification ''D:n2''), ClearTimeout]\<rparr>)
       \<noteq> connections online"
    by (simp add: online_def)
  show ?thesis
    using published_only_if_verified [of toy_library "''me''" "''n1''"
        "DataConnection ''pygmy_K_0''" handshake_events online fixed_nonce listener_on_2 "''K''"]
      a b c
    by blast
qed

section \<open>A target nobody listens for\<close>

text \<open>
  Claim C3. Let the local peer be stored and the wallet key known, as \<^verbatim>\<open>connect\<close> requires,
  and let no attempt on the slots 0 to 9 receive a verification that the library accepts;
  this holds in particular when no listener exists, so that every attempt ends in its timer
  or in a transport error. Then the slot loop ends without a connection (the outcome the
  specification calls NotFound; the command itself returns no value), \<^verbatim>\<open>connect\<close> returns, the
  published connections and the stored peer are unchanged, and the timers and calls of
  \<^verbatim>\<open>peer.connect\<close> in the history are exactly ten pairs: a timer of 5000 ms and the call for
  slot \<open>k\<close>, for \<open>k\<close> from 0 to 9 in order.
\<close>

theorem connect_without_listener:
  assumes "myPeer st = Some p" and "userWallet st = Some me"
    and "\<forall>k<10. \<forall>ev \<in> set (cenv k). \<not> verifies L (nonces k) (JStr target) ev"
  shows "\<exists>st'. connectToSlots L nonces cenv me target 0 None st = Some (None, st') \<and>
           p2pAtom_connect L nonces cenv target st = Some st' \<and>
           connections st' = connections st \<and> myPeer st' = myPeer st \<and>
           filter is_attempt_entry (log st') =
             filter is_attempt_entry (log st) @ concat (map (attempt_entries target) [0..<10])"
proof -
  obtain r st1 where r: "connectToSlots L nonces cenv me target 0 None st = Some (r, st1)"
    "connections st1 = connections st" "myPeer st1 = myPeer st"
    "(\<forall>k<10. \<forall>ev \<in> set (cenv k). \<not> verifies L (nonces k) (JStr target) ev) \<longrightarrow>
        r = None \<and>
        filter is_attempt_entry (log st1) =
          filter is_attempt_entry (log st) @ concat (map (attempt_entries target) [0..<10])"
    using connectToSlots_result [of L nonces cenv me target 0 st] by blast
  then have n: "r = None" and lg: "filter is_attempt_entry (log st1) =
          filter is_attempt_entry (log st) @ concat (map (attempt_entries target) [0..<10])"
    using assms(3) by blast+
  have "p2pAtom_connect L nonces cenv target st = Some st1"
    using assms(1,2) r(1) n by (simp add: p2pAtom_connect_def)
  then show ?thesis using r n lg by blast
qed

text \<open>Nobody answers: the attempts on slots 0 to 4 time out, those on 5 to 9 fail.\<close>

theorem connect_without_listener_witness:
  "myPeer online = Some listening_peer \<and> userWallet online = Some ''me'' \<and>
   \<not> (\<exists>k<10. \<exists>ev \<in> set (nobody k). verifies toy_library (fixed_nonce k) (JStr ''K'') ev) \<and>
   (\<exists>st'. connectToSlots toy_library fixed_nonce nobody ''me'' ''K'' 0 None online =
             Some (None, st') \<and>
           p2pAtom_connect toy_library fixed_nonce nobody ''K'' online = Some st' \<and>
           connections st' = connections online \<and> myPeer st' = myPeer online \<and>
           filter is_attempt_entry (log st') =
             filter is_attempt_entry (log online) @ concat (map (attempt_entries ''K'') [0..<10]))"
proof -
  have a: "myPeer online = Some listening_peer" and b: "userWallet online = Some ''me''"
    by (simp_all add: online_def)
  have c: "\<forall>k<10. \<forall>ev \<in> set (nobody k). \<not> verifies toy_library (fixed_nonce k) (JStr ''K'') ev"
    by (simp add: nobody_def verifies_def)
  show ?thesis using connect_without_listener [OF a b c] a b c by blast
qed

section \<open>Teardown\<close>

text \<open>
  Claim C8. \<^verbatim>\<open>destroy\<close> returns normally from every state and leaves no stored peer, which
  is the state Offline of the specification (the derived atom then reads \<^verbatim>\<open>'loading'\<close> while
  the network is up and \<^verbatim>\<open>'offline'\<close> otherwise, never \<^verbatim>\<open>'online'\<close>); a second \<^verbatim>\<open>destroy\<close>
  right after it returns normally as well and changes nothing, so both end in the same state.
\<close>

theorem destroy_idempotent:
  "p2pAtom L E Destroy st = Some (Inr (p2pAtom_destroy st)) \<and>
   myPeer (p2pAtom_destroy st) = None \<and>
   myOnlineStateAtom isOnline (p2pAtom_destroy st) = (if isOnline then ''loading'' else ''offline'') \<and>
   p2pAtom L E Destroy (p2pAtom_destroy st) = Some (Inr (p2pAtom_destroy st))"
  by (simp add: p2pAtom_destroy_def myOnlineStateAtom_def split: option.splits)

text \<open>
  Claim C9. When \<^verbatim>\<open>init\<close> has read the device key and its slot loop has returned with a
  peer, \<^verbatim>\<open>init\<close> returns with that peer stored, and the derived atom reads \<^verbatim>\<open>'online'\<close> while
  the network is up. The only handler of \<^verbatim>\<open>'error'\<close> left on the peer is the one that calls
  \<^verbatim>\<open>set(p2pAtom, { type: 'destroy' })\<close>. An error event of the peer then stores
  \<^verbatim>\<open>{ type: 'destroy' }\<close> as the value of \<^verbatim>\<open>p2pAtom\<close> and changes nothing else: the peer
  stays stored, \<^verbatim>\<open>peer.destroy()\<close> is not called (the history is the same), and the derived
  atom reads what it read before, \<^verbatim>\<open>'online'\<close> while the network is up. The state differs from
  the one \<^verbatim>\<open>destroy\<close> leaves, which has no stored peer: the transition to Offline that the
  specification describes does not take place.
\<close>

theorem fatal_error_stays_online:
  assumes "myDevicePubkeyAtom L gen key (localStorage st) = Inr (dk, store)"
    and "init_slot_loop env dk probe_start = Some s" and "p_peer s = Some p0"
  shows "\<exists>st' p. p2pAtom_init L gen env key st = Some (Inr st') \<and> myPeer st' = Some p \<and>
           myOnlineStateAtom True st' = ''online'' \<and>
           error_handlers p = [FatalError] \<and>
           emit_error p st' = st'\<lparr>p2pAtom_value := Some Destroy\<rparr> \<and>
           myPeer (emit_error p st') = Some p \<and>
           log (emit_error p st') = log st' \<and>
           connections (emit_error p st') = connections st' \<and>
           myOnlineStateAtom isOnline (emit_error p st') = myOnlineStateAtom isOnline st' \<and>
           myOnlineStateAtom True (emit_error p st') = ''online'' \<and>
           myPeer (p2pAtom_destroy st') = None \<and>
           emit_error p st' \<noteq> p2pAtom_destroy st'"
proof -
  define p where "p = p0\<lparr>error_handlers := [FatalError], open_handlers := [],
    connection_handlers := connection_handlers p0 @ [Inbound key]\<rparr>"
  define st1 where "st1 = st\<lparr>localStorage := store, log := log st @ p_trace s\<rparr>"
  define st' where "st' = st1\<lparr>myPeer := Some p,
    log := log st1 @ [PeerOff (peer_id p0) ''error'', PeerOff (peer_id p0) ''open'',
      PeerOn (peer_id p0) ''error'' FatalError, PeerOn (peer_id p0) ''connection'' (Inbound key)]\<rparr>"
  have ret: "p2pAtom_init L gen env key st = Some (Inr st')"
    using assms by (simp add: p2pAtom_init_def Let_def st'_def st1_def p_def)
  have stored: "myPeer st' = Some p" and handlers: "error_handlers p = [FatalError]"
    by (simp_all add: st'_def p_def)
  have ev: "emit_error p st' = st'\<lparr>p2pAtom_value := Some Destroy\<rparr>"
    by (simp add: emit_error_def handlers)
  have gone: "myPeer (p2pAtom_destroy st') = None"
    by (simp add: p2pAtom_destroy_def stored)
  have kept: "myPeer (emit_error p st') = Some p"
    by (simp add: ev stored)
  have differ: "emit_error p st' \<noteq> p2pAtom_destroy st'"
    using gone kept by auto
  have "myOnlineStateAtom True st' = ''online''"
    "log (emit_error p st') = log st'" "connections (emit_error p st') = connections st'"
    "myOnlineStateAtom isOnline (emit_error p st') = myOnlineStateAtom isOnline st'"
    "myOnlineStateAtom True (emit_error p st') = ''online''"
    by (simp_all add: ev stored myOnlineStateAtom_def)
  with ret stored handlers ev gone kept differ show ?thesis by blast
qed

text \<open>
  An \<^verbatim>\<open>init\<close> that finds slots 0 and 1 in use and binds slot 2, then an error of the bound
  peer.
\<close>

theorem fatal_error_stays_online_witness:
  "myDevicePubkeyAtom toy_library (''S'', ''P'') ''me'' (localStorage offline) =
     Inr (''P'', [''device_key_me'' \<mapsto> ''S'']) \<and>
   init_slot_loop two_taken ''P'' probe_start = Some two_taken_result \<and>
   p_peer two_taken_result = Some (new_peer ''pygmy_P_2'') \<and>
   (\<exists>st' p. p2pAtom_init toy_library (''S'', ''P'') two_taken ''me'' offline = Some (Inr st') \<and>
      myPeer st' = Some p \<and> myOnlineStateAtom True st' = ''online'' \<and>
      error_handlers p = [FatalError] \<and>
      emit_error p st' = st'\<lparr>p2pAtom_value := Some Destroy\<rparr> \<and>
      myPeer (emit_error p st') = Some p \<and>
      log (emit_error p st') = log st' \<and>
      connections (emit_error p st') = connections st' \<and>
      myOnlineStateAtom False (emit_error p st') = myOnlineStateAtom False st' \<and>
      myOnlineStateAtom True (emit_error p st') = ''online'' \<and>
      myPeer (p2pAtom_destroy st') = None \<and>
      emit_error p st' \<noteq> p2pAtom_destroy st')"
proof -
  have a: "myDevicePubkeyAtom toy_library (''S'', ''P'') ''me'' (localStorage offline) =
     Inr (''P'', [''device_key_me'' \<mapsto> ''S''])"
    by (simp add: myDevicePubkeyAtom_def offline_def)
  have b: "init_slot_loop two_taken ''P'' probe_start = Some two_taken_result"
    by (simp add: loop_eval two_taken_def two_taken_result_def)
  have c: "p_peer two_taken_result = Some (new_peer ''pygmy_P_2'')"
    by (simp add: two_taken_result_def)
  show ?thesis using fatal_error_stays_online [OF a b c, of False] a b c by simp
qed

end
